theory Spec2Isabelle
  imports Complex_Main "HOL-Library.Word"
begin

unbundle bit_operations_syntax

section \<open>Strings and the tag registry\<close>

text \<open>
  A JavaScript string is a sequence of 16-bit code units; \<open>charCodeAt\<close> reads one of
  them. \<open>SerializationConstant\<close> is the closed enumeration of the one-character tags:
  each \<open>X_CHAR\<close> of the source is the one-unit string whose unit is \<open>X_VALUE\<close>.
\<close>

type_synonym jschar = "16 word"
type_synonym jsstring = "jschar list"

definition UNDEFINED_VALUE :: jschar where "UNDEFINED_VALUE = 0x0"
definition REFERENCE_VALUE :: jschar where "REFERENCE_VALUE = 0x1"
definition URL_VALUE :: jschar where "URL_VALUE = 0x2"
definition Date_VALUE :: jschar where "Date_VALUE = 0x3"
definition Regex_VALUE :: jschar where "Regex_VALUE = 0x4"
definition String_VALUE :: jschar where "String_VALUE = 0x5"
definition VNode_VALUE :: jschar where "VNode_VALUE = 0x6"
definition NotFinite_VALUE :: jschar where "NotFinite_VALUE = 0x7"
definition BigInt_VALUE :: jschar where "BigInt_VALUE = 0x8"
definition URLSearchParams_VALUE :: jschar where "URLSearchParams_VALUE = 0xe"
definition Error_VALUE :: jschar where "Error_VALUE = 0xf"
definition QRL_VALUE :: jschar where "QRL_VALUE = 0x10"
definition Task_VALUE :: jschar where "Task_VALUE = 0x11"
definition Resource_VALUE :: jschar where "Resource_VALUE = 0x12"
definition Component_VALUE :: jschar where "Component_VALUE = 0x13"
definition DerivedSignal_VALUE :: jschar where "DerivedSignal_VALUE = 0x14"
definition Signal_VALUE :: jschar where "Signal_VALUE = 0x15"
definition SignalWrapper_VALUE :: jschar where "SignalWrapper_VALUE = 0x16"
definition Store_VALUE :: jschar where "Store_VALUE = 0x17"
definition FormData_VALUE :: jschar where "FormData_VALUE = 0x18"
definition JSXNode_VALUE :: jschar where "JSXNode_VALUE = 0x19"
definition Set_VALUE :: jschar where "Set_VALUE = 0x1a"
definition Map_VALUE :: jschar where "Map_VALUE = 0x1b"
definition Promise_VALUE :: jschar where "Promise_VALUE = 0x1c"
definition Uint8Array_VALUE :: jschar where "Uint8Array_VALUE = 0x1e"
definition PropsProxy_VALUE :: jschar where "PropsProxy_VALUE = 0x1f"
definition LAST_VALUE :: jschar where "LAST_VALUE = 0x20"


subsection \<open>String primitives of the host language\<close>

text \<open>
  \<open>charCodeAt\<close> is \<open>NaN\<close> outside the string (here \<open>None\<close>); \<open>substring\<close> clamps
  both indices to the length and swaps them when the first is larger; \<open>indexOf\<close> is
  \<open>-1\<close> when the unit does not occur.
\<close>

definition charCodeAt :: "jsstring \<Rightarrow> nat \<Rightarrow> jschar option" where
  "charCodeAt s i = (if i < length s then Some (s ! i) else None)"

definition substring :: "jsstring \<Rightarrow> int \<Rightarrow> int \<Rightarrow> jsstring" where
  "substring s a b =
     (let n = int (length s);
          a' = max 0 (min a n);
          b' = max 0 (min b n);
          lo = min a' b';
          hi = max a' b'
      in take (nat (hi - lo)) (drop (nat lo) s))"

definition substringFrom :: "jsstring \<Rightarrow> int \<Rightarrow> jsstring" where
  "substringFrom s a = substring s a (int (length s))"

fun indexOfFrom :: "jsstring \<Rightarrow> jschar \<Rightarrow> nat \<Rightarrow> int" where
  "indexOfFrom [] c i = - 1"
| "indexOfFrom (x # xs) c i = (if x = c then int i else indexOfFrom xs c (Suc i))"

definition indexOf :: "jsstring \<Rightarrow> jschar \<Rightarrow> int" where
  "indexOf s c = indexOfFrom s c 0"

text \<open>A string literal of the source, as code units.\<close>

definition js :: "string \<Rightarrow> jsstring" where
  "js t = map of_char t"

text \<open>
  \<open>Number.prototype.toString\<close> on an integer (every root id is one, below \<open>1e21\<close>):
  decimal digits, a leading minus sign for a negative one.
\<close>

definition digitChar :: "nat \<Rightarrow> jschar" where
  "digitChar d = word_of_nat (48 + d)"

fun digitsOf :: "nat \<Rightarrow> jsstring" where
  "digitsOf n = (if n < 10 then [digitChar n] else digitsOf (n div 10) @ [digitChar (n mod 10)])"

declare digitsOf.simps [simp del]

definition intToString :: "int \<Rightarrow> jsstring" where
  "intToString i = (if i < 0 then 0x2d # digitsOf (nat (- i)) else digitsOf (nat i))"

text \<open>
  \<open>parseInt\<close> without a radix: leading white space is skipped, then an optional sign,
  then an optional \<open>0x\<close> prefix that selects radix 16, then the longest run of digits.
  No digit at all gives \<open>NaN\<close> (\<open>None\<close>). The result is the exact integer: the rounding
  of an integer beyond \<open>2^53\<close> to the nearest double is left out.
\<close>

definition isWhiteSpace :: "jschar \<Rightarrow> bool" where
  "isWhiteSpace c \<longleftrightarrow>
     c = 0x9 \<or> c = 0xa \<or> c = 0xb \<or> c = 0xc \<or> c = 0xd \<or> c = 0x20 \<or> c = 0xa0 \<or>
     c = 0x1680 \<or> (0x2000 \<le> c \<and> c \<le> 0x200a) \<or> c = 0x2028 \<or> c = 0x2029 \<or>
     c = 0x202f \<or> c = 0x205f \<or> c = 0x3000 \<or> c = 0xfeff"

definition digitValue :: "nat \<Rightarrow> jschar \<Rightarrow> nat option" where
  "digitValue radix c =
     (let u = unat c;
          v = (if 48 \<le> u \<and> u \<le> 57 then Some (u - 48)
               else if 97 \<le> u \<and> u \<le> 122 then Some (u - 87)
               else if 65 \<le> u \<and> u \<le> 90 then Some (u - 55)
               else None)
      in case v of None \<Rightarrow> None | Some d \<Rightarrow> if d < radix then Some d else None)"

fun parseDigits :: "nat \<Rightarrow> jsstring \<Rightarrow> nat option \<Rightarrow> nat option" where
  "parseDigits radix [] acc = acc"
| "parseDigits radix (c # cs) acc =
     (case digitValue radix c of
        None \<Rightarrow> acc
      | Some d \<Rightarrow> parseDigits radix cs (Some ((case acc of None \<Rightarrow> 0 | Some a \<Rightarrow> a) * radix + d)))"

definition parseUnsigned :: "jsstring \<Rightarrow> nat option" where
  "parseUnsigned s =
     (if take 2 s = [0x30, 0x78] \<or> take 2 s = [0x30, 0x58]
      then parseDigits 16 (drop 2 s) None
      else parseDigits 10 s None)"

definition parseInt :: "jsstring \<Rightarrow> int option" where
  "parseInt s =
     (case dropWhile isWhiteSpace s of
        [] \<Rightarrow> None
      | c # cs \<Rightarrow>
          if c = 0x2d then map_option (\<lambda>n. - int n) (parseUnsigned cs)
          else if c = 0x2b then map_option int (parseUnsigned cs)
          else map_option int (parseUnsigned (c # cs)))"


definition indexOfAt :: "jsstring \<Rightarrow> jschar \<Rightarrow> int \<Rightarrow> int" where
  "indexOfAt s c from =
     (let start = nat (max 0 (min from (int (length s))))
      in indexOfFrom (drop start s) c start)"

fun lastIndexOfFrom :: "jsstring \<Rightarrow> jschar \<Rightarrow> nat \<Rightarrow> int \<Rightarrow> int" where
  "lastIndexOfFrom [] c i found = found"
| "lastIndexOfFrom (x # xs) c i found =
     lastIndexOfFrom xs c (Suc i) (if x = c then int i else found)"

definition lastIndexOf :: "jsstring \<Rightarrow> jschar \<Rightarrow> int" where
  "lastIndexOf s c = lastIndexOfFrom s c 0 (- 1)"

fun splitOn :: "jschar \<Rightarrow> jsstring \<Rightarrow> jsstring list" where
  "splitOn c [] = [[]]"
| "splitOn c (x # xs) =
     (if x = c then [] # splitOn c xs
      else (case splitOn c xs of [] \<Rightarrow> [[x]] | p # ps \<Rightarrow> (x # p) # ps))"

section \<open>Values, objects and the heap\<close>

text \<open>
  A number is \<open>NaN\<close>, one of the two infinities, or finite. An object lives in the heap
  at an address; two references are the identical instance exactly when the addresses
  are equal.
\<close>

datatype jsnum = NaN | PosInfinity | NegInfinity | Finite real

type_synonym addr = nat

datatype val =
    Undefined
  | Null
  | Bool bool
  | Num jsnum
  | BigInt int
  | Str jsstring
  | Ref addr

text \<open>
  Property keys: a name, an array index, or one of the module's symbols. A property is
  a data property or, after \<open>upgradePropsWithDerivedSignal\<close>, an accessor whose getter
  returns \<open>derivedSignal.value\<close> of the signal at the given address.
\<close>

datatype pkey =
    PName jsstring
  | PIndex nat
  | SERIALIZER_PROXY_UNWRAP
  | CONST_PROPS
  | VAR_PROPS

datatype slot = Data val | Getter addr

datatype promiseState = Pending | Resolved val | Rejected val

datatype obj =
    ObjectLiteral "(pkey \<times> slot) list"
  | ArrayObj "val list"
  | DeserializerProxy addr
  | StoreProxy addr "val list list"
  | SetObj "val list"
  | MapObj "(val \<times> val) list"
  | PromiseObj promiseState
  | ErrorObj "(pkey \<times> slot) list"
  | URLObj jsstring
  | DateObj jsstring
  | RegExpObj jsstring jsstring
  | URLSearchParamsObj jsstring
  | FormDataObj "(val \<times> val) list"
  | Uint8ArrayObj "8 word list"
  | TaskObj val val val val val
  | SignalImplObj val "val list list option"
  | SignalDerivedObj val "val list"
  | SignalWrapperObj val val
  | JSXNodeObj val val val val val val val
  | QrlObj jsstring jsstring "jsstring list option" "val list option" val
  | ComponentObj addr
  | PropsProxyObj val val
  | NodeObj jsstring
  | OtherObj

text \<open>
  The constructors follow the classes the source tests for:
  \<^item> \<open>ObjectLiteral\<close> and \<open>ArrayObj\<close>: the objects \<open>isObjectLiteral\<close> accepts, with their own
    properties in enumeration order, or their elements;
  \<^item> \<open>DeserializerProxy t\<close>: \<open>new Proxy(t, new DeserializationHandler(container))\<close>;
  \<^item> \<open>StoreProxy t subs\<close>: a reactive store over \<open>t\<close>, with the \<open>$subs$\<close> tuples of its
    subscription manager;
  \<^item> \<open>TaskObj\<close>: \<open>$flags$\<close>, \<open>$index$\<close>, \<open>$el$\<close>, \<open>$qrl$\<close>, \<open>$state$\<close>;
  \<^item> \<open>SignalImplObj\<close>: \<open>untrackedValue\<close> and the \<open>$subs$\<close> of its manager, if it has one;
  \<^item> \<open>SignalDerivedObj\<close>: \<open>$func$\<close> and \<open>$args$\<close>; \<open>SignalWrapperObj\<close>: \<open>ref\<close> and \<open>prop\<close>;
  \<^item> \<open>JSXNodeObj\<close>: \<open>type\<close>, \<open>varProps\<close>, \<open>constProps\<close>, \<open>children\<close>, \<open>flags\<close>, \<open>key\<close>,
    and what the \<open>props\<close> getter returns;
  \<^item> \<open>QrlObj\<close>: \<open>$chunk$\<close>, \<open>$symbol$\<close>, \<open>$capture$\<close>, \<open>$captureRef$\<close> and the element given
    to \<open>$setContainer$\<close>; a QRL and a component are functions (\<open>typeof\<close> is not
    \<open>'object'\<close>);
  \<^item> \<open>ComponentObj q\<close>: a component whose \<open>[SERIALIZABLE_STATE][0]\<close> is the QRL at \<open>q\<close>;
  \<^item> \<open>PropsProxyObj\<close>: \<open>[_VAR_PROPS]\<close> and \<open>[_CONST_PROPS]\<close>;
  \<^item> \<open>NodeObj\<close>: an instance of the context's \<open>$NodeConstructor$\<close>, with its \<open>id\<close>;
  \<^item> \<open>OtherObj\<close>: an object of any other class.
\<close>

type_synonym heap = "obj list"

definition lookup :: "heap \<Rightarrow> addr \<Rightarrow> obj option" where
  "lookup h a = (if a < length h then Some (h ! a) else None)"

definition alloc :: "heap \<Rightarrow> obj \<Rightarrow> addr \<times> heap" where
  "alloc h ob = (length h, h @ [ob])"

definition isFunction :: "heap \<Rightarrow> val \<Rightarrow> bool" where
  "isFunction h v =
     (case v of
        Ref a \<Rightarrow> (case lookup h a of
                    Some (QrlObj _ _ _ _ _) \<Rightarrow> True
                  | Some (ComponentObj _) \<Rightarrow> True
                  | _ \<Rightarrow> False)
      | _ \<Rightarrow> False)"

text \<open>\<open>typeof v === 'object'\<close>: \<open>null\<close> and every reference that is not a function.\<close>

definition typeofObject :: "heap \<Rightarrow> val \<Rightarrow> bool" where
  "typeofObject h v =
     (case v of Null \<Rightarrow> True | Ref a \<Rightarrow> \<not> isFunction h v | _ \<Rightarrow> False)"

text \<open>
  Built-ins of the host language that the module calls and whose results it only
  passes on: \<open>String(n)\<close> on a finite number, \<open>BigInt(s)\<close> (a \<open>SyntaxError\<close> is
  \<open>None\<close>), \<open>JSON.stringify\<close> on a string, \<open>atob\<close>, \<open>new URL(s)\<close> (the \<open>href\<close> of the
  parsed URL; a \<open>TypeError\<close> for a string that is no URL is \<open>None\<close>) and
  \<open>new RegExp(source, flags)\<close> (the source and flags of the expression; a
  \<open>SyntaxError\<close> is \<open>None\<close>).
\<close>

record host =
  numberToString :: "real \<Rightarrow> jsstring"
  stringToBigInt :: "jsstring \<Rightarrow> int option"
  jsonStringify :: "jsstring \<Rightarrow> jsstring"
  atob :: "jsstring \<Rightarrow> jsstring option"
  newURL :: "jsstring \<Rightarrow> jsstring option"
  newRegExp :: "jsstring \<Rightarrow> jsstring \<Rightarrow> (jsstring \<times> jsstring) option"


text \<open>A read of an element of an array; past the end it is \<open>undefined\<close>.\<close>

definition nthOr :: "val list \<Rightarrow> nat \<Rightarrow> val" where
  "nthOr xs i = (if i < length xs then xs ! i else Undefined)"

text \<open>
  Modelled from the spec: \<open>getProxyTarget\<close> and \<open>unwrapProxy\<close> of \<open>state/common\<close>, which
  are not among the sources. A reactive store is a proxying wrapper over a plain object
  or array: \<open>getProxyTarget\<close> is its target (\<open>undefined\<close> for any other value), and
  \<open>unwrapProxy\<close> is the target of a store and the value itself otherwise. A read or a
  write through a store reaches the property of the ordinary object under it.
\<close>

definition getProxyTarget :: "heap \<Rightarrow> val \<Rightarrow> val option" where
  "getProxyTarget h v =
     (case v of
        Ref a \<Rightarrow> (case lookup h a of Some (StoreProxy t _) \<Rightarrow> Some (Ref t) | _ \<Rightarrow> None)
      | _ \<Rightarrow> None)"

definition unwrapProxy :: "heap \<Rightarrow> val \<Rightarrow> val" where
  "unwrapProxy h v = (case getProxyTarget h v of Some t \<Rightarrow> t | None \<Rightarrow> v)"

text \<open>
  What the source throws: \<open>throwErrorAndStop('Missing root id for: ...')\<close>,
  \<open>new Error('Not implemented')\<close>, \<open>new Error('unknown allocate type: ...')\<close>,
  \<open>new Error('Unknown type: ...')\<close>, and an error raised inside a built-in the module
  calls (a \<open>TypeError\<close> or \<open>SyntaxError\<close>). \<open>OutsideModel\<close> marks an input that
  is not covered here: a deserializer proxy handed to the encoder.
\<close>

datatype error =
    MissingRootId
  | NotImplemented
  | UnknownAllocateType "jschar option"
  | UnknownType
  | HostError
  | AssertionFailed
  | OutsideModel

section \<open>The serialization context: seen-map and root table\<close>

text \<open>
  \<open>createSerializationContext\<close> closes over \<open>map = new Map<any, number>()\<close> and
  \<open>roots = []\<close>. The map sends an object to its root index, or to
  \<open>Number.MIN_SAFE_INTEGER\<close> when the object was seen once only. Keys are compared by
  identity, so the key type is left open.
\<close>

definition MIN_SAFE_INTEGER :: int where
  "MIN_SAFE_INTEGER = - (2 ^ 53 - 1)"

record 'k serctx =
  objMap :: "'k \<Rightarrow> int option"
  roots :: "'k list"

definition createSerializationContext :: "'k serctx" where
  "createSerializationContext = \<lparr> objMap = (\<lambda>_. None), roots = [] \<rparr>"

definition wasSeen :: "'k serctx \<Rightarrow> 'k \<Rightarrow> int option" where
  "wasSeen c obj = objMap c obj"

definition seen :: "'k serctx \<Rightarrow> 'k \<Rightarrow> 'k serctx" where
  "seen c obj = c \<lparr> objMap := (objMap c)(obj \<mapsto> MIN_SAFE_INTEGER) \<rparr>"

text \<open>
  \<open>$addRoot$\<close>: \<open>typeof id !== 'number'\<close> is the absent key; the new id is
  \<open>roots.length\<close>. The result is the id and the updated context.
\<close>

definition addRoot :: "'k serctx \<Rightarrow> 'k \<Rightarrow> int \<times> 'k serctx" where
  "addRoot c obj =
     (case objMap c obj of
        None \<Rightarrow>
          (int (length (roots c)),
           c \<lparr> objMap := (objMap c)(obj \<mapsto> int (length (roots c))), roots := roots c @ [obj] \<rparr>)
      | Some i \<Rightarrow>
          if i = MIN_SAFE_INTEGER
          then (int (length (roots c)),
                c \<lparr> objMap := (objMap c)(obj \<mapsto> int (length (roots c))), roots := roots c @ [obj] \<rparr>)
          else (i, c))"

definition hasRootId :: "'k serctx \<Rightarrow> 'k \<Rightarrow> int option" where
  "hasRootId c obj =
     (case objMap c obj of
        None \<Rightarrow> None
      | Some i \<Rightarrow> if i = MIN_SAFE_INTEGER then None else Some i)"

text \<open>
  \<open>$getRootId$\<close> tests \<open>!id || id === Number.MIN_SAFE_INTEGER\<close>: \<open>!id\<close> holds for the
  absent key and for the number \<open>0\<close>.
\<close>

definition getRootId :: "'k serctx \<Rightarrow> 'k \<Rightarrow> error + int" where
  "getRootId c obj =
     (case objMap c obj of
        None \<Rightarrow> Inl MissingRootId
      | Some i \<Rightarrow> if i = 0 \<or> i = MIN_SAFE_INTEGER then Inl MissingRootId else Inr i)"

text \<open>
  The life of a context: it is created empty, \<open>$addRoot$\<close> is called on any object, and
  \<open>$seen$\<close> is called by the graph walker on an object that \<open>$wasSeen$\<close> reports as
  unseen (its only call site).
\<close>

inductive ctx_steps :: "'k serctx \<Rightarrow> 'k serctx \<Rightarrow> bool" where
  steps_refl: "ctx_steps c c"
| steps_addRoot: "ctx_steps c c' \<Longrightarrow> ctx_steps c (snd (addRoot c' ob))"
| steps_seen: "ctx_steps c c' \<Longrightarrow> wasSeen c' ob = None \<Longrightarrow> ctx_steps c (seen c' ob)"

text \<open>
  The context's life: it is created empty, \<open>$addRoot$\<close> is called on any object, and
  \<open>$seen$\<close> is called by the graph walker on an object that \<open>$wasSeen$\<close> reports as
  unseen (its only call site).
\<close>


section \<open>The graph walker\<close>

text \<open>
  The state of the serialization side: the context, the heap, the
  \<open>[SERIALIZABLE_ROOT_ID]\<close> property that the walker puts on sets, maps and promises,
  the worklist \<open>discoveredValues\<close> (its last element is the next to be popped), the
  outstanding promises, and for the encoder the chunks given to \<open>$writer$.write\<close> and
  the nesting depth.
\<close>

record sstate =
  sctx :: "val serctx"
  sobjs :: heap
  rootIdOf :: "addr \<Rightarrow> int option"
  discoveredValues :: "val list"
  promises :: "val list"
  written :: "jsstring list"
  depth :: int

text \<open>
  What the walker and the encoder take from other modules: the set \<open>noSerialize\<close> of the
  objects marked as not serializable, whether
  the context has a \<open>$NodeConstructor$\<close>, the positions \<open>SubscriptionProp.HOST\<close> and
  \<open>SubscriptionProp.SIGNAL\<close> in a subscription tuple, and whether assertions are on
  (\<open>assertDefined\<close> and \<open>assertTrue\<close> throw in development builds only).
  \<open>callFn\<close> runs a function of the host on the heap (the closure of a derived signal,
  when an accessor is read).
  \<open>proxyReads\<close> gives what the walker reads when the object it scans is a
  deserializer proxy: the loop over the keys of an object literal, or over the elements
  of an array, then goes through the \<open>get\<close> trap of the proxy's handler, whose container
  and proxy tables belong to the decoding side and are no part of the serialization
  context; the result is the values read, in order, and the heap after the reads, or the
  error a read raised.
  \<open>writeOther\<close> stands for the branches of the encoder that write functions, object
  literals, arrays and framework objects (\<open>qrlToString\<close>, \<open>serializeObjectLiteral\<close>,
  \<open>serializeSignalDerived\<close> and the like), which are not embedded here.
\<close>

record senv =
  noSerialize :: "addr \<Rightarrow> bool"
  hasNodeConstructor :: bool
  HOST :: nat
  SIGNAL :: nat
  qDev :: bool
  callFn :: "val \<Rightarrow> val list \<Rightarrow> heap \<Rightarrow> val \<times> heap"
  proxyReads :: "heap \<Rightarrow> addr \<Rightarrow> error + (val list \<times> heap)"
  writeOther :: "val \<Rightarrow> int \<Rightarrow> sstate \<Rightarrow> error + sstate"

text \<open>
  Modelled from the spec: \<open>fastSkipSerialize\<close> of \<open>state/common\<close>, which is not among the
  sources. It tells whether an object is one of the "no serialize" objects; a value
  that is not an object never is.
\<close>

definition fastSkipSerialize :: "senv \<Rightarrow> val \<Rightarrow> bool" where
  "fastSkipSerialize env v = (case v of Ref a \<Rightarrow> noSerialize env a | _ \<Rightarrow> False)"

definition shouldTrackObj :: "heap \<Rightarrow> val \<Rightarrow> bool" where
  "shouldTrackObj h ob =
     ((typeofObject h ob \<and> ob \<noteq> Null) \<or> (case ob of Str t \<Rightarrow> length t > 10 | _ \<Rightarrow> False))"

definition isQrl :: "heap \<Rightarrow> val \<Rightarrow> bool" where
  "isQrl h v =
     (case v of
        Ref a \<Rightarrow> (case lookup h a of Some (QrlObj _ _ _ _ _) \<Rightarrow> True | _ \<Rightarrow> False)
      | _ \<Rightarrow> False)"

definition frameworkType :: "heap \<Rightarrow> val \<Rightarrow> bool" where
  "frameworkType h ob =
     ((typeofObject h ob \<and> ob \<noteq> Null \<and>
       (case ob of
          Ref a \<Rightarrow> (case lookup h a of
                      Some (SignalImplObj _ _) \<Rightarrow> True
                    | Some (TaskObj _ _ _ _ _) \<Rightarrow> True
                    | Some (JSXNodeObj _ _ _ _ _ _ _) \<Rightarrow> True
                    | _ \<Rightarrow> False)
        | _ \<Rightarrow> False))
      \<or> isQrl h ob)"

definition setSerializableDataRootId :: "sstate \<Rightarrow> addr \<Rightarrow> val \<Rightarrow> sstate" where
  "setSerializableDataRootId st ob v =
     (case addRoot (sctx st) v of
        (i, ctx') \<Rightarrow> st \<lparr> sctx := ctx', rootIdOf := (rootIdOf st)(ob \<mapsto> i) \<rparr>)"

definition push :: "sstate \<Rightarrow> val list \<Rightarrow> sstate" where
  "push st vs = st \<lparr> discoveredValues := discoveredValues st @ vs \<rparr>"

text \<open>The own property of an ordinary object under a key, if it has one.\<close>

definition slotOf :: "heap \<Rightarrow> addr \<Rightarrow> pkey \<Rightarrow> slot option" where
  "slotOf h a k =
     (case lookup h a of
        Some (ObjectLiteral ps) \<Rightarrow> map_of ps k
      | Some (ErrorObj ps) \<Rightarrow> map_of ps k
      | Some (ArrayObj xs) \<Rightarrow>
          (case k of
             PIndex i \<Rightarrow> if i < length xs then Some (Data (xs ! i)) else None
           | PName n \<Rightarrow> if n = [0x6c, 0x65, 0x6e, 0x67, 0x74, 0x68]
                         then Some (Data (Num (Finite (real (length xs))))) else None
           | _ \<Rightarrow> None)
      | _ \<Rightarrow> None)"

text \<open>
  A read \<open>obj[key]\<close> of an ordinary object: a missing property reads as \<open>undefined\<close>,
  a data property as its value, and an accessor runs: the accessors of this module are
  those of \<open>upgradePropsWithDerivedSignal\<close>, which return the value of a derived signal,
  that is, the result of its closure on its arguments.
\<close>

definition getterValue :: "senv \<Rightarrow> heap \<Rightarrow> addr \<Rightarrow> val \<times> heap" where
  "getterValue env h d =
     (case lookup h d of
        Some (SignalDerivedObj f args) \<Rightarrow> callFn env f args h
      | _ \<Rightarrow> (Undefined, h))"

definition getProp :: "senv \<Rightarrow> heap \<Rightarrow> addr \<Rightarrow> pkey \<Rightarrow> val \<times> heap" where
  "getProp env h a k =
     (case slotOf h a k of
        None \<Rightarrow> (Undefined, h)
      | Some (Data v) \<Rightarrow> (v, h)
      | Some (Getter d) \<Rightarrow> getterValue env h d)"

text \<open>
  The loop \<open>for (const key in obj)\<close> over an object literal. The keys are the
  enumerable string keys the object has when the loop starts, in their order; each
  turn tests \<open>hasOwnProperty\<close> and pushes what the read \<open>obj[key]\<close> returns.
\<close>

definition forInKeys :: "(pkey \<times> slot) list \<Rightarrow> pkey list" where
  "forInKeys ps =
     filter (\<lambda>k. case k of PName _ \<Rightarrow> True | PIndex _ \<Rightarrow> True | _ \<Rightarrow> False) (map fst ps)"

fun forInOwn :: "senv \<Rightarrow> addr \<Rightarrow> pkey list \<Rightarrow> sstate \<Rightarrow> sstate" where
  "forInOwn env a [] st = st"
| "forInOwn env a (k # ks) st =
     (if slotOf (sobjs st) a k \<noteq> None
      then (case getProp env (sobjs st) a k of
              (v, h') \<Rightarrow> forInOwn env a ks (push (st \<lparr> sobjs := h' \<rparr>) [v]))
      else forInOwn env a ks st)"

text \<open>
  \<open>scanContent\<close> is the chain of tests under the comment "Object has not been seen
  yet, must scan content". A QRL is a function, so the first test (\<open>typeof obj !==
  'object'\<close>) takes it and the later \<open>isQrl\<close> branch of the source is never reached. A
  promise gets its two settlement callbacks (\<open>promiseResolved\<close> and \<open>promiseRejected\<close>
  below run when it settles) and is pushed on \<open>promises\<close>.
\<close>

definition scanContent :: "senv \<Rightarrow> sstate \<Rightarrow> val \<Rightarrow> error + sstate" where
  "scanContent env st ob =
     (case ob of
        Ref a \<Rightarrow>
          (if \<not> typeofObject (sobjs st) ob then Inr st
           else
             (case lookup (sobjs st) a of
                None \<Rightarrow> Inl UnknownType
              | Some (URLObj _) \<Rightarrow> Inr st
              | Some (DateObj _) \<Rightarrow> Inr st
              | Some (RegExpObj _ _) \<Rightarrow> Inr st
              | Some (ErrorObj _) \<Rightarrow> Inr st
              | Some (Uint8ArrayObj _) \<Rightarrow> Inr st
              | Some (URLSearchParamsObj _) \<Rightarrow> Inr st
              | Some (FormDataObj _) \<Rightarrow> Inr st
              | Some k \<Rightarrow>
                  if fastSkipSerialize env ob then Inr st
                  else
                    (case k of
                       SetObj xs \<Rightarrow>
                         (case alloc (sobjs st) (ArrayObj xs) of
                            (contents, h') \<Rightarrow>
                              Inr (push (setSerializableDataRootId (st \<lparr> sobjs := h' \<rparr>) a (Ref contents)) xs))
                     | MapObj m \<Rightarrow>
                         (case alloc (sobjs st) (ArrayObj (concat (map (\<lambda>(k, v). [k, v]) m))) of
                            (tuples, h') \<Rightarrow>
                              Inr (push (setSerializableDataRootId
                                           (push (st \<lparr> sobjs := h' \<rparr>) (concat (map (\<lambda>(k, v). [k, v]) m)))
                                           a (Ref tuples))
                                     [Ref tuples]))
                     | SignalImplObj untrackedValue manager \<Rightarrow>
                         Inr (push (push st [untrackedValue])
                                (case manager of
                                   None \<Rightarrow> []
                                 | Some subs \<Rightarrow>
                                     concat (map (\<lambda>sub. nthOr sub (HOST env) #
                                                    (if ob \<noteq> nthOr sub (SIGNAL env)
                                                     then [nthOr sub (SIGNAL env)] else []))
                                               subs)))
                     | SignalWrapperObj r _ \<Rightarrow> Inr (push st [r])
                     | SignalDerivedObj _ _ \<Rightarrow> Inr st
                     | TaskObj _ _ el qrl state \<Rightarrow> Inr (push st [el, qrl, state])
                     | JSXNodeObj type varProps constProps children _ _ props \<Rightarrow>
                         Inr (push st [type, props, constProps, children])
                     | NodeObj _ \<Rightarrow> if hasNodeConstructor env then Inr st else Inl UnknownType
                     | ArrayObj xs \<Rightarrow> Inr (push st xs)
                     | PropsProxyObj varProps constProps \<Rightarrow> Inr (push st [varProps, constProps])
                     | PromiseObj _ \<Rightarrow> Inr (st \<lparr> promises := promises st @ [ob] \<rparr>)
                     | ObjectLiteral ps \<Rightarrow> Inr (forInOwn env a (forInKeys ps) st)
                     | DeserializerProxy _ \<Rightarrow>
                         (case proxyReads env (sobjs st) a of
                            Inl e \<Rightarrow> Inl e
                          | Inr (vs, h') \<Rightarrow> Inr (push (st \<lparr> sobjs := h' \<rparr>) vs))
                     | _ \<Rightarrow> Inl UnknownType)))
      | _ \<Rightarrow> Inr st)"

text \<open>
  One turn of the loop \<open>while (discoveredValues.length)\<close>, after \<open>obj\<close> was popped.
  For a store the unwrapped target and every entry of its subscription tuples from
  \<open>SubscriptionProp.HOST\<close> on are pushed.
\<close>

definition visit :: "senv \<Rightarrow> val \<Rightarrow> val \<Rightarrow> sstate \<Rightarrow> error + sstate" where
  "visit env rootObj ob st =
     (if shouldTrackObj (sobjs st) ob \<or> frameworkType (sobjs st) ob
      then
        (let isRoot = (ob = rootObj);
             id = wasSeen (sctx st) ob;
             unwrapObj = unwrapProxy (sobjs st) ob
         in if unwrapObj \<noteq> ob
            then Inr (push (push st [unwrapObj])
                        (case ob of
                           Ref a \<Rightarrow> (case lookup (sobjs st) a of
                                       Some (StoreProxy _ subs) \<Rightarrow> concat (map (drop (HOST env)) subs)
                                     | _ \<Rightarrow> [])
                         | _ \<Rightarrow> []))
            else if id = None \<or> isRoot
            then scanContent env (if \<not> isRoot then st \<lparr> sctx := seen (sctx st) ob \<rparr> else st) ob
            else if id = Some MIN_SAFE_INTEGER
            then Inr (st \<lparr> sctx := snd (addRoot (sctx st) ob) \<rparr>)
            else Inr st)
      else Inr st)"

text \<open>
  \<open>promises.splice(promises.indexOf(obj), 1)\<close>: a negative start counts from the end,
  so the index \<open>-1\<close> of a missing element removes the last one.
\<close>

fun indexOfVal :: "val list \<Rightarrow> val \<Rightarrow> nat \<Rightarrow> int" where
  "indexOfVal [] v i = - 1"
| "indexOfVal (x # xs) v i = (if x = v then int i else indexOfVal xs v (Suc i))"

definition spliceOne :: "val list \<Rightarrow> int \<Rightarrow> val list" where
  "spliceOne xs i =
     (let n = int (length xs);
          start = (if i < 0 then max (n + i) 0 else min i n)
      in take (nat start) xs @ drop (nat start + 1) xs)"

text \<open>The two callbacks given to \<open>obj.then\<close>, run when the promise settles.\<close>

definition promiseResolved :: "sstate \<Rightarrow> val \<Rightarrow> val \<Rightarrow> sstate" where
  "promiseResolved st ob v =
     (case ob of
        Ref a \<Rightarrow>
          (let st' = setSerializableDataRootId st a v
           in st' \<lparr> promises := spliceOne (promises st') (indexOfVal (promises st') ob 0) \<rparr>)
      | _ \<Rightarrow> st)"

definition promiseRejected :: "sstate \<Rightarrow> val \<Rightarrow> val \<Rightarrow> sstate" where
  "promiseRejected st ob err =
     (case ob of
        Ref a \<Rightarrow>
          (case addRoot (sctx st) err of
             (i, ctx') \<Rightarrow>
               st \<lparr> sctx := ctx',
                    rootIdOf := (rootIdOf st)(a \<mapsto> sint (NOT (word_of_int i :: 32 word))),
                    promises := spliceOne (promises st) (indexOfVal (promises st) ob 0) \<rparr>)
      | _ \<Rightarrow> st)"



section \<open>The encoder\<close>

text \<open>
  \<open>writeString\<close>: the text goes through \<open>JSON.stringify\<close>, and every \<open></\<close> of the result
  is written with a backslash before the slash; the pieces between are written as they
  are, the last one even when it is empty.
\<close>

fun escapeClosing :: "jsstring \<Rightarrow> jsstring \<Rightarrow> jsstring list" where
  "escapeClosing acc [] = [acc]"
| "escapeClosing acc [a] = [acc @ [a]]"
| "escapeClosing acc (a # b # r) =
     (if a = 0x3c \<and> b = 0x2f then acc # [0x3c, 0x5c, 0x2f] # escapeClosing [] r
      else escapeClosing (acc @ [a]) (b # r))"

definition writerWrite :: "sstate \<Rightarrow> jsstring list \<Rightarrow> sstate" where
  "writerWrite st chunks = st \<lparr> written := written st @ chunks \<rparr>"

definition writeString :: "host \<Rightarrow> sstate \<Rightarrow> jsstring \<Rightarrow> sstate" where
  "writeString hst st text = writerWrite st (escapeClosing [] (jsonStringify hst text))"

text \<open>
  \<open>getSerializableDataRootId\<close> reads \<open>[SERIALIZABLE_ROOT_ID]\<close>; \<open>assertDefined\<close> stops a
  development build when it is missing. \<open>idText\<close> is the id as the string concatenation
  \<open>TAG_CHAR + id\<close> renders it.
\<close>

definition getSerializableDataRootId :: "senv \<Rightarrow> sstate \<Rightarrow> addr \<Rightarrow> error + int option" where
  "getSerializableDataRootId env st a =
     (case rootIdOf st a of
        None \<Rightarrow> if qDev env then Inl AssertionFailed else Inr None
      | Some i \<Rightarrow> Inr (Some i))"

definition idText :: "int option \<Rightarrow> jsstring" where
  "idText i = (case i of None \<Rightarrow> js ''undefined'' | Some n \<Rightarrow> intToString n)"

definition writeObjectValue :: "host \<Rightarrow> senv \<Rightarrow> sstate \<Rightarrow> val \<Rightarrow> int \<Rightarrow> error + sstate" where
  "writeObjectValue hst env st v idx =
     (let seenBefore = (if depth st \<le> 1 then None else wasSeen (sctx st) v)
      in if fastSkipSerialize env v then Inr (writeString hst st [UNDEFINED_VALUE])
         else if (case seenBefore of Some n \<Rightarrow> n \<ge> 0 | None \<Rightarrow> False)
         then Inr (writeString hst st (REFERENCE_VALUE # idText seenBefore))
         else
           (case v of
              Ref a \<Rightarrow>
                (case lookup (sobjs st) a of
                   Some (PropsProxyObj varProps constProps) \<Rightarrow>
                     (case addRoot (sctx st) varProps of
                        (varId, ctx1) \<Rightarrow>
                          (case addRoot ctx1 constProps of
                             (constId, ctx2) \<Rightarrow>
                               Inr (writeString hst (st \<lparr> sctx := ctx2 \<rparr>)
                                      (PropsProxy_VALUE # intToString varId @ js '' '' @ intToString constId))))
                 | Some (StoreProxy _ _) \<Rightarrow>
                     (case addRoot (sctx st) (unwrapProxy (sobjs st) v) of
                        (i, ctx1) \<Rightarrow>
                          Inr (writeString hst (st \<lparr> sctx := ctx1 \<rparr>) (Store_VALUE # intToString i)))
                 | Some (SignalWrapperObj r p) \<Rightarrow>
                     (case addRoot (sctx st) r of
                        (i, ctx1) \<Rightarrow>
                          Inr (writeString hst (st \<lparr> sctx := ctx1 \<rparr>)
                                 (SignalWrapper_VALUE # intToString i @ js '' '' @
                                  (case p of Str t \<Rightarrow> t | _ \<Rightarrow> []))))
                 | Some (URLObj href) \<Rightarrow> Inr (writeString hst st (URL_VALUE # href))
                 | Some (DateObj json) \<Rightarrow> Inr (writeString hst st (Date_VALUE # json))
                 | Some (RegExpObj source flags) \<Rightarrow>
                     Inr (writeString hst st (Regex_VALUE # js ''/'' @ source @ js ''/'' @ flags))
                 | Some (URLSearchParamsObj t) \<Rightarrow> Inr (writeString hst st (URLSearchParams_VALUE # t))
                 | Some (SetObj _) \<Rightarrow>
                     (case getSerializableDataRootId env st a of
                        Inl e \<Rightarrow> Inl e
                      | Inr i \<Rightarrow> Inr (writeString hst st (Set_VALUE # idText i)))
                 | Some (MapObj _) \<Rightarrow>
                     (case getSerializableDataRootId env st a of
                        Inl e \<Rightarrow> Inl e
                      | Inr i \<Rightarrow> Inr (writeString hst st (Map_VALUE # idText i)))
                 | Some (PromiseObj _) \<Rightarrow>
                     (case getSerializableDataRootId env st a of
                        Inl e \<Rightarrow> Inl e
                      | Inr i \<Rightarrow> Inr (writeString hst st (Promise_VALUE # idText i)))
                 | Some (DeserializerProxy _) \<Rightarrow> Inl OutsideModel
                 | Some OtherObj \<Rightarrow> Inl NotImplemented
                 | Some _ \<Rightarrow> writeOther env v idx st
                 | None \<Rightarrow> Inl HostError)
            | _ \<Rightarrow> Inl HostError))"

text \<open>
  \<open>writeValue\<close>. The branch for \<open>typeof value === 'object'\<close> raises the depth around
  \<open>writeObjectValue\<close>; the branch for functions is \<open>writeOther\<close>.
\<close>

definition writeValue :: "host \<Rightarrow> senv \<Rightarrow> sstate \<Rightarrow> val \<Rightarrow> int \<Rightarrow> error + sstate" where
  "writeValue hst env st v idx =
     (if fastSkipSerialize env v then Inr (writeString hst st [UNDEFINED_VALUE])
      else
        (case v of
           BigInt n \<Rightarrow> Inr (writeString hst st (BigInt_VALUE # intToString n))
         | Bool b \<Rightarrow> Inr (writerWrite st [if b then js ''true'' else js ''false''])
         | Num n \<Rightarrow>
             (case n of
                NaN \<Rightarrow> Inr (writeString hst st [NotFinite_VALUE])
              | PosInfinity \<Rightarrow> Inr (writeString hst st (NotFinite_VALUE # js ''+''))
              | NegInfinity \<Rightarrow> Inr (writeString hst st (NotFinite_VALUE # js ''-''))
              | Finite r \<Rightarrow> Inr (writerWrite st [numberToString hst r]))
         | Null \<Rightarrow> Inr (writerWrite st [js ''null''])
         | Ref a \<Rightarrow>
             if isFunction (sobjs st) v then writeOther env v idx st
             else (case writeObjectValue hst env (st \<lparr> depth := depth st + 1 \<rparr>) v idx of
                     Inl e \<Rightarrow> Inl e
                   | Inr st' \<Rightarrow> Inr (st' \<lparr> depth := depth st' - 1 \<rparr>))
         | Str t \<Rightarrow>
             (case (if shouldTrackObj (sobjs st) v \<and> depth st > 0 then hasRootId (sctx st) v else None) of
                Some seenIdx \<Rightarrow>
                  if qDev env \<and> \<not> seenIdx \<ge> 0 then Inl AssertionFailed
                  else Inr (writeString hst st (REFERENCE_VALUE # intToString seenIdx))
              | None \<Rightarrow>
                  if length t > 0 \<and> (case charCodeAt t 0 of Some ch \<Rightarrow> ch < LAST_VALUE | None \<Rightarrow> False)
                  then Inr (writeString hst st (String_VALUE # t))
                  else Inr (writeString hst st t))
         | Undefined \<Rightarrow> Inr (writeString hst st [UNDEFINED_VALUE])))"

section \<open>Decoder: allocation\<close>

text \<open>
  \<open>parseQRL\<close> splits \<open>chunk#symbol[captures]\<close> and calls \<open>createQRL\<close>, which makes a
  new QRL function object. The development-mode back channel (\<open>isDev\<close>) is left out.
\<close>

definition parseQRL :: "heap \<Rightarrow> jsstring \<Rightarrow> addr \<times> heap" where
  "parseQRL h qrl =
     (let hashIdx = indexOf qrl 0x23;
          captureStart = indexOfAt qrl 0x5b hashIdx;
          captureEnd = indexOfAt qrl 0x5d captureStart;
          chunk = (if hashIdx > - 1
                   then substring qrl
                          (case charCodeAt qrl 0 of
                             Some c \<Rightarrow> if c < LAST_VALUE then 1 else 0
                           | None \<Rightarrow> 0)
                          hashIdx
                   else qrl);
          symbol = (if captureStart > - 1
                    then substring qrl (hashIdx + 1) captureStart
                    else substringFrom qrl (hashIdx + 1));
          captureIds = (if captureStart > - 1 \<and> captureEnd > - 1
                        then Some (filter (\<lambda>v. length v \<noteq> 0)
                                     (splitOn 0x20 (substring qrl (captureStart + 1) captureEnd)))
                        else None)
      in alloc h (QrlObj chunk symbol captureIds None Null))"

text \<open>
  \<open>allocate\<close>: an empty, correctly typed shell for the tag of the payload, or the value
  itself for the tags of primitive values. The result is the value and the heap with
  the new shell.
\<close>

definition allocObj :: "heap \<Rightarrow> obj \<Rightarrow> error + (val \<times> heap)" where
  "allocObj h ob = (case alloc h ob of (a, h') \<Rightarrow> Inr (Ref a, h'))"

definition allocate :: "host \<Rightarrow> heap \<Rightarrow> jsstring \<Rightarrow> error + (val \<times> heap)" where
  "allocate hst h v =
     (case charCodeAt v 0 of
        None \<Rightarrow> Inl (UnknownAllocateType None)
      | Some t \<Rightarrow>
          if t = UNDEFINED_VALUE then Inr (Undefined, h)
          else if t = QRL_VALUE then (case parseQRL h v of (a, h') \<Rightarrow> Inr (Ref a, h'))
          else if t = Task_VALUE
            then allocObj h (TaskObj (Num (Finite (- 1))) (Num (Finite (- 1))) Null Null Null)
          else if t = Resource_VALUE then Inl NotImplemented
          else if t = URL_VALUE
            then (case newURL hst (substringFrom v 1) of
                    None \<Rightarrow> Inl HostError
                  | Some href \<Rightarrow> allocObj h (URLObj href))
          else if t = Date_VALUE then allocObj h (DateObj (substringFrom v 1))
          else if t = Regex_VALUE
            then (let idx = lastIndexOf v 0x2f
                  in case newRegExp hst (substring v 2 idx) (substringFrom v (idx + 1)) of
                       None \<Rightarrow> Inl HostError
                     | Some (source, flags) \<Rightarrow> allocObj h (RegExpObj source flags))
          else if t = Error_VALUE then allocObj h (ErrorObj [])
          else if t = Component_VALUE
            then (case parseQRL h v of (q, h') \<Rightarrow> allocObj h' (ComponentObj q))
          else if t = DerivedSignal_VALUE then allocObj h (SignalDerivedObj Null [])
          else if t = Signal_VALUE then allocObj h (SignalImplObj Null None)
          else if t = SignalWrapper_VALUE then allocObj h (SignalWrapperObj Null Null)
          else if t = NotFinite_VALUE
            then (let type = substringFrom v 1
                  in if length type = 0 then Inr (Num NaN, h)
                     else if type = [0x2d] then Inr (Num NegInfinity, h)
                     else Inr (Num PosInfinity, h))
          else if t = URLSearchParams_VALUE then allocObj h (URLSearchParamsObj (substringFrom v 1))
          else if t = FormData_VALUE then allocObj h (FormDataObj [])
          else if t = JSXNode_VALUE
            then allocObj h (JSXNodeObj Null Null Null Null (Num (Finite (- 1))) Null Undefined)
          else if t = BigInt_VALUE
            then (case stringToBigInt hst (substringFrom v 1) of
                    None \<Rightarrow> Inl HostError
                  | Some n \<Rightarrow> Inr (BigInt n, h))
          else if t = Set_VALUE then allocObj h (SetObj [])
          else if t = Map_VALUE then allocObj h (MapObj [])
          else if t = String_VALUE then Inr (Str (substringFrom v 1), h)
          else if t = Promise_VALUE then allocObj h (PromiseObj Pending)
          else if t = Uint8Array_VALUE
            then (let encodedLength = length v - 1;
                      blocks = encodedLength div 4;
                      rest = encodedLength mod 4;
                      decodedLength = blocks * 3 + (if rest \<noteq> 0 then rest - 1 else 0)
                  in allocObj h (Uint8ArrayObj (replicate decodedLength 0)))
          else if t = PropsProxy_VALUE then allocObj h (PropsProxyObj Null Null)
          else Inl (UnknownAllocateType (Some t)))"

section \<open>Decoder: inflation\<close>

text \<open>
  The container is a collaborator of the module: \<open>$getObjectById$\<close> resolves a root id
  (a number or a string), and the objects it returns are read through whatever wrapper
  the container put around them. \<open>elementsOf v\<close> is what the reads \<open>v.length\<close> and
  \<open>v[0]\<close>, \<open>v[1]\<close>, ... give; \<open>ownPropsOf v\<close> is the own enumerable properties
  \<open>Object.assign\<close> copies from \<open>v\<close>. \<open>callFunction\<close> runs a synchronous closure of the
  container's table on the heap.
\<close>

record container =
  getObjectById :: "val \<Rightarrow> val"
  elementsOf :: "val \<Rightarrow> val list"
  ownPropsOf :: "val \<Rightarrow> (pkey \<times> val) list"
  containerElement :: val
  ownerDocument :: val
  vnode_locate :: "jsstring \<Rightarrow> val"
  vnode_isVNode :: "val \<Rightarrow> bool"
  vnode_getNode :: "val \<Rightarrow> val"
  getSyncFn :: "val \<Rightarrow> val"
  callFunction :: "val \<Rightarrow> val list \<Rightarrow> heap \<Rightarrow> val \<times> heap"
  Slot :: val
  Fragment :: val

text \<open>
  The parse cursor: the module-level \<open>rest\<close> and \<open>restIdx\<close>. \<open>inflate\<close> saves them on
  \<open>restStack\<close>, sets them from its payload and restores them at its end, so the cursor
  is local to one call of \<open>inflate\<close> and is threaded through it here.
\<close>

record cursor =
  rest :: jsstring
  restIdx :: nat

function scanRest :: "jsstring \<Rightarrow> nat \<Rightarrow> int \<Rightarrow> nat" where
  "scanRest r idx d =
     (if idx < length r
      then (let ch = r ! idx;
                d' = (if ch = 91 then d + 1 else if ch = 93 then d - 1 else d)
            in if d' > 0 \<or> ch \<noteq> 32 then scanRest r (Suc idx) d' else Suc idx)
      else length r + 1)"
  by pat_completeness auto
termination
  by (relation "measure (\<lambda>(r, idx, d). length r - idx)") auto

declare scanRest.simps [simp del]

definition restString :: "cursor \<Rightarrow> jsstring \<times> cursor" where
  "restString cur =
     (let start = restIdx cur;
          idx' = scanRest (rest cur) (restIdx cur) 0
      in (substring (rest cur) (int start) (int idx' - 1), cur \<lparr> restIdx := idx' \<rparr>))"

definition restInt :: "cursor \<Rightarrow> int option \<times> cursor" where
  "restInt cur = (case restString cur of (s, cur') \<Rightarrow> (parseInt s, cur'))"

definition numOfInt :: "int option \<Rightarrow> val" where
  "numOfInt r = (case r of None \<Rightarrow> Num NaN | Some n \<Rightarrow> Num (Finite (of_int n)))"

text \<open>\<open>~id\<close>: the operand is converted to a 32-bit integer (\<open>NaN\<close> to \<open>0\<close>) and complemented.\<close>

definition bitNot :: "int option \<Rightarrow> int" where
  "bitNot r = sint (NOT (word_of_int (case r of None \<Rightarrow> 0 | Some n \<Rightarrow> n) :: 32 word))"

text \<open>\<open>Set.prototype.add\<close> and \<open>Map.prototype.set\<close> keep insertion order.\<close>

definition setAdd :: "val list \<Rightarrow> val \<Rightarrow> val list" where
  "setAdd xs v = (if v \<in> set xs then xs else xs @ [v])"

fun mapSet :: "(val \<times> val) list \<Rightarrow> val \<Rightarrow> val \<Rightarrow> (val \<times> val) list" where
  "mapSet [] k v = [(k, v)]"
| "mapSet ((k', v') # m) k v = (if k' = k then (k, v) # m else (k', v') # mapSet m k v)"

text \<open>
  The loop \<open>for (let i = 0; i < mapKeyValue.length; ) map.set(mapKeyValue[i++],
  mapKeyValue[i++])\<close>; a read past the end is \<open>undefined\<close>.
\<close>

fun mapSetAll :: "(val \<times> val) list \<Rightarrow> val list \<Rightarrow> (val \<times> val) list" where
  "mapSetAll m [] = m"
| "mapSetAll m [k] = mapSet m k Undefined"
| "mapSetAll m (k # v # kvs) = mapSetAll (mapSet m k v) kvs"

fun assignProp :: "(pkey \<times> slot) list \<Rightarrow> pkey \<Rightarrow> val \<Rightarrow> (pkey \<times> slot) list" where
  "assignProp [] k v = [(k, Data v)]"
| "assignProp ((k', s) # ps) k v =
     (if k' = k then (case s of Data _ \<Rightarrow> (k, Data v) # ps | Getter g \<Rightarrow> (k', s) # ps)
      else (k', s) # assignProp ps k v)"

definition inflateQRL :: "container \<Rightarrow> heap \<Rightarrow> val \<Rightarrow> error + heap" where
  "inflateQRL c h q =
     (case q of
        Ref a \<Rightarrow>
          (case lookup h a of
             Some (QrlObj chunk symbol captureIds captureRef el) \<Rightarrow>
               Inr (h[a := QrlObj chunk symbol captureIds
                             (map_option (map (\<lambda>id. getObjectById c (numOfInt (parseInt id)))) captureIds)
                             (containerElement c)])
           | _ \<Rightarrow> Inl HostError)
      | _ \<Rightarrow> Inl HostError)"

definition deserializeJSXType :: "container \<Rightarrow> jsstring \<Rightarrow> val" where
  "deserializeJSXType c type =
     (if type = [0x3a, 0x73, 0x6c, 0x6f, 0x74] then Slot c
      else if type = [0x3a, 0x66, 0x72, 0x61, 0x67, 0x6d, 0x65, 0x6e, 0x74] then Fragment c
      else (case charCodeAt type 0 of
              Some ch \<Rightarrow> if 48 \<le> ch \<and> ch \<le> 57 then getObjectById c (Str type) else Str type
            | None \<Rightarrow> Str type))"

text \<open>
  \<open>subscriptionManagerFromString\<close>: empty segments are skipped; in a segment the first
  token is parsed as a number, the others are resolved as root ids, and the last of the
  resolved tuple is popped and handed to \<open>$addSub$\<close> with the tuple, which records them
  together.
\<close>

definition subscriptionFromString :: "container \<Rightarrow> jsstring \<Rightarrow> val list" where
  "subscriptionFromString c sub =
     (case splitOn 0x20 sub of
        [] \<Rightarrow> []
      | t # ts \<Rightarrow> numOfInt (parseInt t) # map (\<lambda>i. getObjectById c (Str i)) ts)"

definition subscriptionManagerFromString :: "container \<Rightarrow> val list list \<Rightarrow> jsstring \<Rightarrow> val list list" where
  "subscriptionManagerFromString c subs v =
     subs @ map (subscriptionFromString c) (filter (\<lambda>sub. sub \<noteq> []) (splitOn 0x3b v))"

lemma scanRest_advances: "idx < length r \<Longrightarrow> idx < scanRest r idx d"
proof (induction r idx d rule: scanRest.induct)
  case (1 r idx d)
  show ?case
  proof (cases "(if r ! idx = 91 then d + 1 else if r ! idx = 93 then d - 1 else d) > 0 \<or> r ! idx \<noteq> 32")
    case True
    then have eq: "scanRest r idx d = scanRest r (Suc idx) (if r ! idx = 91 then d + 1 else if r ! idx = 93 then d - 1 else d)"
      using "1.prems" by (subst scanRest.simps) (simp add: Let_def)
    show ?thesis
    proof (cases "Suc idx < length r")
      case True
      from "1.IH"[OF "1.prems" refl refl \<open>_ \<or> _\<close> True] eq show ?thesis by simp
    next
      case False
      then have "scanRest r (Suc idx) (if r ! idx = 91 then d + 1 else if r ! idx = 93 then d - 1 else d) = length r + 1"
        by (subst scanRest.simps) simp
      with eq "1.prems" show ?thesis by simp
    qed
  next
    case False
    then have "scanRest r idx d = Suc idx"
      using "1.prems" by (subst scanRest.simps) (auto simp add: Let_def)
    then show ?thesis by simp
  qed
qed

text \<open>
  The loop \<open>while (restIdx < rest.length) args.push(container.$getObjectById$(restInt()))\<close>
  of the derived-signal case.
\<close>

function restArgs :: "container \<Rightarrow> cursor \<Rightarrow> val list" where
  "restArgs c cur =
     (if restIdx cur < length (rest cur)
      then getObjectById c (numOfInt (fst (restInt cur))) # restArgs c (snd (restInt cur))
      else [])"
  by pat_completeness auto
termination
proof (relation "measure (\<lambda>(c, cur). length (rest cur) - restIdx cur)")
  show "wf (measure (\<lambda>(c, cur). length (rest cur) - restIdx cur))" by simp
next
  fix c :: container and cur :: cursor
  assume lt: "restIdx cur < length (rest cur)"
  have r: "rest (snd (restInt cur)) = rest cur"
    by (simp add: restInt_def restString_def Let_def split: prod.splits)
  have i: "restIdx (snd (restInt cur)) = scanRest (rest cur) (restIdx cur) 0"
    by (simp add: restInt_def restString_def Let_def split: prod.splits)
  from scanRest_advances[OF lt, of 0] r i lt
  show "((c, snd (restInt cur)), (c, cur)) \<in> measure (\<lambda>(c, cur). length (rest cur) - restIdx cur)"
    by simp
qed

declare restArgs.simps [simp del]

text \<open>
  The decoding state: the heap, the module-level \<open>deserializedProxyMap\<close> (a \<open>WeakMap\<close>
  from a target to its deserializer proxy), the container's map from a store target to
  its store proxy, and a trace of the calls of \<open>inflate\<close> (shell and payload, oldest
  first) that no function reads: it is there to state how often inflation runs.
\<close>

record dstate =
  objs :: heap
  deserializedProxyMap :: "addr \<Rightarrow> addr option"
  storeProxyMap :: "addr \<Rightarrow> addr option"
  inflated :: "(val \<times> jsstring) list"

text \<open>
  \<open>inflateShell\<close> is the \<open>switch\<close> of \<open>inflate\<close>. The target is the shell that \<open>allocate\<close>
  made for the same payload; a shell of another class (the source casts without a test)
  is a \<open>TypeError\<close> of the host here.
\<close>

definition inflateShell :: "host \<Rightarrow> container \<Rightarrow> heap \<Rightarrow> val \<Rightarrow> jsstring \<Rightarrow> error + heap" where
  "inflateShell hst c h target needsInflationData =
     (let cur = \<lparr> rest = needsInflationData, restIdx = 1 \<rparr>;
          ob = (case target of Ref a \<Rightarrow> lookup h a | _ \<Rightarrow> None);
          a = (case target of Ref a \<Rightarrow> a | _ \<Rightarrow> 0)
      in case charCodeAt needsInflationData 0 of
        None \<Rightarrow> Inl NotImplemented
      | Some t \<Rightarrow>
          if t = QRL_VALUE then inflateQRL c h target
          else if t = Task_VALUE then
            (case ob of
               Some (TaskObj _ _ _ _ _) \<Rightarrow>
                 (let (flags, c1) = restInt cur;
                      (index, c2) = restInt c1;
                      (el, c3) = restInt c2;
                      (qrlStr, c4) = restString c3;
                      (q, h1) = parseQRL h qrlStr
                  in case inflateQRL c h1 (Ref q) of
                       Inl e \<Rightarrow> Inl e
                     | Inr h2 \<Rightarrow>
                         (let (taskState, c5) = restString c4
                          in Inr (h2[a := TaskObj (numOfInt flags) (numOfInt index)
                                            (getObjectById c (numOfInt el)) (Ref q)
                                            (if taskState \<noteq> [] then getObjectById c (Str taskState)
                                             else Undefined)])))
             | _ \<Rightarrow> Inl HostError)
          else if t = Resource_VALUE then Inl NotImplemented
          else if t = Component_VALUE then
            (case ob of
               Some (ComponentObj q) \<Rightarrow> inflateQRL c h (Ref q)
             | _ \<Rightarrow> Inl HostError)
          else if t = DerivedSignal_VALUE then
            (case ob of
               Some (SignalDerivedObj _ _) \<Rightarrow>
                 (let (fnIdx, c1) = restInt cur
                  in Inr (h[a := SignalDerivedObj (getSyncFn c (numOfInt fnIdx)) (restArgs c c1)]))
             | _ \<Rightarrow> Inl HostError)
          else if t = Store_VALUE then Inr h
          else if t = Signal_VALUE then
            (case ob of
               Some (SignalImplObj _ _) \<Rightarrow>
                 (let semiIdx = indexOf needsInflationData 0x3b;
                      signalValue = getObjectById c
                        (Str (substring needsInflationData 1
                               (if semiIdx = - 1 then int (length needsInflationData) else semiIdx)));
                      signalValue' = (if vnode_isVNode c signalValue then vnode_getNode c signalValue
                                      else signalValue)
                  in Inr (h[a := SignalImplObj signalValue'
                                   (Some (if semiIdx > 0
                                          then subscriptionManagerFromString c []
                                                 (substringFrom needsInflationData (semiIdx + 1))
                                          else []))]))
             | _ \<Rightarrow> Inl HostError)
          else if t = SignalWrapper_VALUE then
            (case ob of
               Some (SignalWrapperObj _ _) \<Rightarrow>
                 (let (r, c1) = restInt cur;
                      (p, c2) = restString c1
                  in Inr (h[a := SignalWrapperObj (getObjectById c (numOfInt r)) (Str p)]))
             | _ \<Rightarrow> Inl HostError)
          else if t = Error_VALUE then
            (case ob of
               Some (ErrorObj ps) \<Rightarrow>
                 (let (i, c1) = restInt cur
                  in Inr (h[a := ErrorObj (foldl (\<lambda>acc (k, v). assignProp acc k v) ps
                                             (ownPropsOf c (getObjectById c (numOfInt i))))]))
             | _ \<Rightarrow> Inl HostError)
          else if t = FormData_VALUE then
            (case ob of
               Some (FormDataObj es) \<Rightarrow>
                 (let (i, c1) = restInt cur
                  in Inr (h[a := FormDataObj
                                   (es @ map (\<lambda>e. (nthOr (elementsOf c e) 0, nthOr (elementsOf c e) 1))
                                           (elementsOf c (getObjectById c (numOfInt i))))]))
             | _ \<Rightarrow> Inl HostError)
          else if t = JSXNode_VALUE then
            (case ob of
               Some (JSXNodeObj _ _ _ _ _ _ props) \<Rightarrow>
                 (let (type, c1) = restString cur;
                      (varProps, c2) = restInt c1;
                      (constProps, c3) = restInt c2;
                      (children, c4) = restInt c3;
                      (flags, c5) = restInt c4;
                      (k, c6) = restString c5
                  in Inr (h[a := JSXNodeObj (deserializeJSXType c type)
                                   (getObjectById c (numOfInt varProps))
                                   (getObjectById c (numOfInt constProps))
                                   (getObjectById c (numOfInt children))
                                   (numOfInt flags)
                                   (if k \<noteq> [] then Str k else Null)
                                   props]))
             | _ \<Rightarrow> Inl HostError)
          else if t = Set_VALUE then
            (case ob of
               Some (SetObj xs) \<Rightarrow>
                 (let (i, c1) = restInt cur;
                      setValues = elementsOf c (getObjectById c (numOfInt i))
                  in Inr (h[a := SetObj (foldl setAdd xs setValues)]))
             | _ \<Rightarrow> Inl HostError)
          else if t = Map_VALUE then
            (case ob of
               Some (MapObj m) \<Rightarrow>
                 (let (i, c1) = restInt cur;
                      mapKeyValue = elementsOf c (getObjectById c (numOfInt i))
                  in Inr (h[a := MapObj (mapSetAll m mapKeyValue)]))
             | _ \<Rightarrow> Inl HostError)
          else if t = Promise_VALUE then
            (case ob of
               Some (PromiseObj st) \<Rightarrow>
                 (let (i, c1) = restInt cur
                  in Inr (h[a := PromiseObj
                       (if st \<noteq> Pending then st
                        else if (case i of None \<Rightarrow> False | Some n \<Rightarrow> n \<ge> 0)
                        then Resolved (getObjectById c (numOfInt i))
                        else Rejected (getObjectById c (Num (Finite (of_int (bitNot i))))))]))
             | _ \<Rightarrow> Inl HostError)
          else if t = Uint8Array_VALUE then
            (case ob of
               Some (Uint8ArrayObj bytes) \<Rightarrow>
                 (let (s, c1) = restString cur
                  in case atob hst s of
                       None \<Rightarrow> Inl HostError
                     | Some buf \<Rightarrow>
                         Inr (h[a := Uint8ArrayObj
                                (take (length bytes) (map ucast buf) @ drop (length buf) bytes)]))
             | _ \<Rightarrow> Inl HostError)
          else if t = PropsProxy_VALUE then
            (case ob of
               Some (PropsProxyObj _ _) \<Rightarrow>
                 (let (v, c1) = restInt cur;
                      (k, c2) = restInt c1
                  in Inr (h[a := PropsProxyObj (getObjectById c (numOfInt v))
                                               (getObjectById c (numOfInt k))]))
             | _ \<Rightarrow> Inl HostError)
          else Inl NotImplemented)"

definition inflate :: "host \<Rightarrow> container \<Rightarrow> dstate \<Rightarrow> val \<Rightarrow> jsstring \<Rightarrow> error + dstate" where
  "inflate hst c s target needsInflationData =
     (case inflateShell hst c (objs s) target needsInflationData of
        Inl e \<Rightarrow> Inl e
      | Inr h' \<Rightarrow>
          Inr (s \<lparr> objs := h', inflated := inflated s @ [(target, needsInflationData)] \<rparr>))"

section \<open>The lazy deserialization wrapper\<close>

definition truthy :: "val \<Rightarrow> bool" where
  "truthy v =
     (case v of
        Undefined \<Rightarrow> False
      | Null \<Rightarrow> False
      | Bool b \<Rightarrow> b
      | Num n \<Rightarrow> n \<noteq> NaN \<and> n \<noteq> Finite 0
      | BigInt i \<Rightarrow> i \<noteq> 0
      | Str t \<Rightarrow> t \<noteq> []
      | Ref a \<Rightarrow> True)"

text \<open>
  A proxy without a trap for an operation forwards it to its target. \<open>baseOf\<close> follows
  the targets of proxies down to the ordinary object; a target is older than its
  proxy, so the length of the heap bounds the chain.
\<close>

fun followProxies :: "nat \<Rightarrow> heap \<Rightarrow> addr \<Rightarrow> addr" where
  "followProxies 0 h a = a"
| "followProxies (Suc n) h a =
     (case lookup h a of
        Some (StoreProxy t _) \<Rightarrow> followProxies n h t
      | Some (DeserializerProxy t) \<Rightarrow> followProxies n h t
      | _ \<Rightarrow> a)"

definition baseOf :: "heap \<Rightarrow> addr \<Rightarrow> addr" where
  "baseOf h a = followProxies (length h) h a"

text \<open>
  \<open>isObjectLiteral\<close>: the prototype is \<open>null\<close>, \<open>Object.prototype\<close> or \<open>Array.prototype\<close>;
  \<open>Object.getPrototypeOf\<close> of a proxy is that of its target.
\<close>

definition isObjectLiteral :: "heap \<Rightarrow> val \<Rightarrow> bool" where
  "isObjectLiteral h v =
     (case v of
        Ref a \<Rightarrow> (case lookup h (baseOf h a) of
                    Some (ObjectLiteral _) \<Rightarrow> True
                  | Some (ArrayObj _) \<Rightarrow> True
                  | _ \<Rightarrow> False)
      | _ \<Rightarrow> False)"

definition isArray :: "heap \<Rightarrow> addr \<Rightarrow> bool" where
  "isArray h a = (case lookup h (baseOf h a) of Some (ArrayObj _) \<Rightarrow> True | _ \<Rightarrow> False)"

text \<open>
  Modelled from the spec: \<open>getOrCreateProxy\<close> of \<open>state/store\<close>, which is not among
  the sources. It returns the reactive store of a target, making it on the first
  request; the container's map from targets to stores remembers it. The store is a
  proxy, and a proxy is made over an object of the heap only: any other target is a
  \<open>TypeError\<close>.
\<close>

definition getOrCreateProxy :: "dstate \<Rightarrow> val \<Rightarrow> error + (val \<times> dstate)" where
  "getOrCreateProxy s target =
     (case target of
        Ref a \<Rightarrow>
          (case storeProxyMap s a of
             Some p \<Rightarrow> Inr (Ref p, s)
           | None \<Rightarrow>
               (case lookup (objs s) a of
                  None \<Rightarrow> Inl HostError
                | Some _ \<Rightarrow>
                    (case alloc (objs s) (StoreProxy a []) of
                       (p, h') \<Rightarrow>
                         Inr (Ref p, s \<lparr> objs := h', storeProxyMap := (storeProxyMap s)(a \<mapsto> p) \<rparr>))))
      | _ \<Rightarrow> Inl HostError)"

text \<open>
  \<open>Reflect.get\<close> and \<open>Reflect.set\<close> on the target of the handler. A missing property
  reads as \<open>undefined\<close>; an accessor installed by \<open>upgradePropsWithDerivedSignal\<close> runs
  the closure of its derived signal (\<open>derivedSignal.value\<close>) and has no setter, so a
  write to it changes nothing. A write to an array index past the end extends the
  array.
\<close>

definition derivedValue :: "container \<Rightarrow> heap \<Rightarrow> addr \<Rightarrow> val \<times> heap" where
  "derivedValue c h d =
     (case lookup h d of
        Some (SignalDerivedObj f args) \<Rightarrow> callFunction c f args h
      | _ \<Rightarrow> (Undefined, h))"

definition reflectGet :: "container \<Rightarrow> heap \<Rightarrow> addr \<Rightarrow> pkey \<Rightarrow> val \<times> heap" where
  "reflectGet c h a k =
     (case slotOf h (baseOf h a) k of
        None \<Rightarrow> (Undefined, h)
      | Some (Data v) \<Rightarrow> (v, h)
      | Some (Getter d) \<Rightarrow> derivedValue c h d)"

definition writeProp :: "obj \<Rightarrow> pkey \<Rightarrow> val \<Rightarrow> obj" where
  "writeProp ob k v =
     (case ob of
        ObjectLiteral ps \<Rightarrow> ObjectLiteral (assignProp ps k v)
      | ErrorObj ps \<Rightarrow> ErrorObj (assignProp ps k v)
      | ArrayObj xs \<Rightarrow>
          (case k of
             PIndex i \<Rightarrow> if i < length xs then ArrayObj (xs[i := v])
                          else ArrayObj (xs @ replicate (i - length xs) Undefined @ [v])
           | _ \<Rightarrow> ob)
      | _ \<Rightarrow> ob)"

definition reflectSet :: "heap \<Rightarrow> addr \<Rightarrow> pkey \<Rightarrow> val \<Rightarrow> heap" where
  "reflectSet h a k v =
     (case lookup h (baseOf h a) of
        None \<Rightarrow> h
      | Some ob \<Rightarrow> h[baseOf h a := writeProp ob k v])"

text \<open>
  The \<open>has\<close> trap of the handler, and \<open>isDeserializerProxy\<close>, which tests
  \<open>SERIALIZER_PROXY_UNWRAP in value\<close>: on a deserializer proxy the trap answers, on
  any other object the own properties do.
\<close>

definition handlerHas :: "heap \<Rightarrow> addr \<Rightarrow> pkey \<Rightarrow> bool" where
  "handlerHas h target property =
     (if property = SERIALIZER_PROXY_UNWRAP then True
      else slotOf h (baseOf h target) property \<noteq> None)"

definition isDeserializerProxy :: "heap \<Rightarrow> val \<Rightarrow> bool" where
  "isDeserializerProxy h v =
     (typeofObject h v \<and> v \<noteq> Null \<and>
      (case v of
         Ref a \<Rightarrow> (case lookup h a of
                     Some (DeserializerProxy t) \<Rightarrow> handlerHas h t SERIALIZER_PROXY_UNWRAP
                   | Some _ \<Rightarrow> slotOf h (baseOf h a) SERIALIZER_PROXY_UNWRAP \<noteq> None
                   | None \<Rightarrow> False)
       | _ \<Rightarrow> False))"

text \<open>
  \<open>value[SERIALIZER_PROXY_UNWRAP]\<close>: the \<open>get\<close> trap of a deserializer proxy answers
  with its target; a store passes the read on to its target.
\<close>

fun readUnwrapKey :: "nat \<Rightarrow> heap \<Rightarrow> addr \<Rightarrow> val" where
  "readUnwrapKey 0 h a = Undefined"
| "readUnwrapKey (Suc n) h a =
     (case lookup h a of
        Some (DeserializerProxy t) \<Rightarrow> Ref t
      | Some (StoreProxy t _) \<Rightarrow> readUnwrapKey n h t
      | Some (ObjectLiteral ps) \<Rightarrow>
          (case map_of ps SERIALIZER_PROXY_UNWRAP of Some (Data v) \<Rightarrow> v | _ \<Rightarrow> Undefined)
      | _ \<Rightarrow> Undefined)"

definition unwrapDeserializerProxy :: "heap \<Rightarrow> val \<Rightarrow> val" where
  "unwrapDeserializerProxy h v =
     (case v of
        Ref a \<Rightarrow>
          (if typeofObject h v
           then (let unwrapped = readUnwrapKey (Suc (length h)) h a
                 in if truthy unwrapped then unwrapped else v)
           else v)
      | _ \<Rightarrow> v)"

definition wrapDeserializerProxy :: "container \<Rightarrow> dstate \<Rightarrow> val \<Rightarrow> val \<times> dstate" where
  "wrapDeserializerProxy c s v =
     (if typeofObject (objs s) v \<and> v \<noteq> Null \<and> isObjectLiteral (objs s) v \<and> \<not> vnode_isVNode c v
      then
        (if isDeserializerProxy (objs s) v then (v, s)
         else
           (case v of
              Ref a \<Rightarrow>
                (case deserializedProxyMap s a of
                   Some p \<Rightarrow> (Ref p, s)
                 | None \<Rightarrow>
                     (case alloc (objs s) (DeserializerProxy a) of
                        (p, h') \<Rightarrow>
                          (Ref p, s \<lparr> objs := h',
                                      deserializedProxyMap := (deserializedProxyMap s)(a \<mapsto> p) \<rparr>)))
            | _ \<Rightarrow> (v, s)))
      else (v, s))"

text \<open>
  \<open>Object.defineProperty(target, key, {get, enumerable: true})\<close>: the property becomes
  an accessor of the derived signal at \<open>d\<close>, in its place in the enumeration order.
\<close>

definition defineGetter :: "heap \<Rightarrow> addr \<Rightarrow> pkey \<Rightarrow> addr \<Rightarrow> heap" where
  "defineGetter h a k d =
     (case lookup h (baseOf h a) of
        Some (ObjectLiteral ps) \<Rightarrow>
          h[baseOf h a := ObjectLiteral (map (\<lambda>(k', sl). if k' = k then (k', Getter d) else (k', sl)) ps)]
      | _ \<Rightarrow> h)"

text \<open>
  The loop of \<open>upgradePropsWithDerivedSignal\<close> over the own enumerable keys of the
  target (taken when the loop starts): a value that is a string whose first unit is the
  derived-signal tag is allocated, recorded in \<open>immutable\<close> (at address \<open>imm\<close>), replaced by
  an accessor and inflated.
\<close>

fun upgradeKeys ::
  "host \<Rightarrow> container \<Rightarrow> addr \<Rightarrow> addr \<Rightarrow> pkey list \<Rightarrow> dstate \<Rightarrow> error + dstate" where
  "upgradeKeys hst c target imm [] s = Inr s"
| "upgradeKeys hst c target imm (k # ks) s =
     (case reflectGet c (objs s) target k of
        (v, h1) \<Rightarrow>
          (case v of
             Str str \<Rightarrow>
               if charCodeAt str 0 = Some DerivedSignal_VALUE
               then
                 (case allocate hst h1 str of
                    Inl e \<Rightarrow> Inl e
                  | Inr (derivedSignal, h2) \<Rightarrow>
                      (case derivedSignal of
                         Ref d \<Rightarrow>
                           (let h3 = reflectSet h2 imm k derivedSignal;
                                h4 = defineGetter h3 target k d
                            in case inflate hst c (s \<lparr> objs := h4 \<rparr>) derivedSignal str of
                                 Inl e \<Rightarrow> Inl e
                               | Inr s' \<Rightarrow> upgradeKeys hst c target imm ks s')
                       | _ \<Rightarrow> Inl HostError))
               else upgradeKeys hst c target imm ks (s \<lparr> objs := h1 \<rparr>)
           | _ \<Rightarrow> upgradeKeys hst c target imm ks (s \<lparr> objs := h1 \<rparr>)))"

definition enumerableKeys :: "heap \<Rightarrow> addr \<Rightarrow> pkey list" where
  "enumerableKeys h a =
     (case lookup h (baseOf h a) of
        Some (ObjectLiteral ps) \<Rightarrow> filter (\<lambda>k. case k of PName _ \<Rightarrow> True | PIndex _ \<Rightarrow> True | _ \<Rightarrow> False) (map fst ps)
      | Some (ArrayObj xs) \<Rightarrow> map PIndex [0..<length xs]
      | _ \<Rightarrow> [])"

definition upgradePropsWithDerivedSignal ::
  "host \<Rightarrow> container \<Rightarrow> dstate \<Rightarrow> addr \<Rightarrow> pkey \<Rightarrow> error + (val \<times> dstate)" where
  "upgradePropsWithDerivedSignal hst c s target property =
     (case alloc (objs s) (ObjectLiteral []) of
        (imm, h0) \<Rightarrow>
          (case upgradeKeys hst c target imm (enumerableKeys h0 target) (s \<lparr> objs := h0 \<rparr>) of
             Inl e \<Rightarrow> Inl e
           | Inr s1 \<Rightarrow>
               (let h1 = reflectSet (objs s1) target CONST_PROPS (Ref imm)
                in case reflectGet c h1 target property of
                     (v, h2) \<Rightarrow> Inr (v, s1 \<lparr> objs := h2 \<rparr>))))"

text \<open>
  The \<open>get\<close> trap of \<open>DeserializationHandler\<close>. \<open>target\<close> is the handler's target; the
  result is the value the read returns and the state after it. \<open>materialize\<close> is the
  chain of cases on the type code: the derived-signal case on a target that is not an
  array returns from the trap at once, the others go on to the caching step.
\<close>

datatype materialized = Returned val dstate | Materialized val dstate

definition materialize ::
  "host \<Rightarrow> container \<Rightarrow> dstate \<Rightarrow> addr \<Rightarrow> pkey \<Rightarrow> jschar \<Rightarrow> jsstring \<Rightarrow> error + materialized" where
  "materialize hst c s target property typeCode propValue =
     (if typeCode = REFERENCE_VALUE
      then Inr (Materialized
                  (unwrapDeserializerProxy (objs s)
                     (getObjectById c (numOfInt (parseInt (substringFrom propValue 1))))) s)
      else if typeCode = VNode_VALUE
      then Inr (Materialized
                  (if propValue = [VNode_VALUE] then ownerDocument c
                   else vnode_locate c (substringFrom propValue 1)) s)
      else if typeCode = Store_VALUE
      then (case getOrCreateProxy s (getObjectById c (Str (substringFrom propValue 1))) of
              Inl e \<Rightarrow> Inl e
            | Inr (v, s') \<Rightarrow> Inr (Materialized v s'))
      else if typeCode = DerivedSignal_VALUE \<and> \<not> isArray (objs s) target
      then (case upgradePropsWithDerivedSignal hst c s target property of
              Inl e \<Rightarrow> Inl e
            | Inr (v, s') \<Rightarrow>
                (case wrapDeserializerProxy c s' v of (w, s'') \<Rightarrow> Inr (Returned w s'')))
      else (case allocate hst (objs s) propValue of
              Inl e \<Rightarrow> Inl e
            | Inr (v, h') \<Rightarrow> Inr (Materialized v (s \<lparr> objs := h' \<rparr>))))"

text \<open>
  The test before the write-back: the value is not a string, or it is a non-empty
  string whose first unit is not in the control range.
\<close>

definition cacheable :: "val \<Rightarrow> bool" where
  "cacheable v =
     (case v of
        Str t \<Rightarrow> length t > 0 \<and> (case charCodeAt t 0 of Some ch \<Rightarrow> ch \<ge> LAST_VALUE | None \<Rightarrow> False)
      | _ \<Rightarrow> True)"

definition cacheAndInflate ::
  "host \<Rightarrow> container \<Rightarrow> dstate \<Rightarrow> addr \<Rightarrow> pkey \<Rightarrow> jschar \<Rightarrow> jsstring \<Rightarrow> val \<Rightarrow> error + dstate" where
  "cacheAndInflate hst c s target property typeCode serializedValue propValue =
     (if cacheable propValue
      then (let s' = s \<lparr> objs := reflectSet (objs s) target property propValue \<rparr>
            in if typeCode \<ge> Error_VALUE then inflate hst c s' propValue serializedValue
               else Inr s')
      else Inr s)"

definition handlerGetValue ::
  "host \<Rightarrow> container \<Rightarrow> dstate \<Rightarrow> addr \<Rightarrow> pkey \<Rightarrow> error + (val \<times> dstate)" where
  "handlerGetValue hst c s target property =
     (case reflectGet c (objs s) target property of
        (propValue, h1) \<Rightarrow>
          (let s1 = s \<lparr> objs := h1 \<rparr>
           in case propValue of
                Str str \<Rightarrow>
                  (case charCodeAt str 0 of
                     Some typeCode \<Rightarrow>
                       if typeCode < LAST_VALUE
                       then (case materialize hst c s1 target property typeCode str of
                               Inl e \<Rightarrow> Inl e
                             | Inr (Returned w s2) \<Rightarrow> Inr (w, s2)
                             | Inr (Materialized v s2) \<Rightarrow>
                                 (case cacheAndInflate hst c s2 target property typeCode str v of
                                    Inl e \<Rightarrow> Inl e
                                  | Inr s3 \<Rightarrow> Inr (wrapDeserializerProxy c s3 v)))
                       else Inr (wrapDeserializerProxy c s1 propValue)
                   | None \<Rightarrow> Inr (wrapDeserializerProxy c s1 propValue))
              | _ \<Rightarrow> Inr (wrapDeserializerProxy c s1 propValue)))"

definition storeStringRead ::
  "container \<Rightarrow> heap \<Rightarrow> addr \<Rightarrow> pkey \<Rightarrow> error + (val \<times> heap) option" where
  "storeStringRead c h target property =
     (if getProxyTarget h (Ref target) \<noteq> None
      then (case unwrapDeserializerProxy h (unwrapProxy h (Ref target)) of
              Ref u \<Rightarrow> Inr (Some (reflectGet c h u property))
            | _ \<Rightarrow> Inl HostError)
      else Inr None)"

definition handlerGet ::
  "host \<Rightarrow> container \<Rightarrow> dstate \<Rightarrow> addr \<Rightarrow> pkey \<Rightarrow> error + (val \<times> dstate)" where
  "handlerGet hst c s target property =
     (if property = SERIALIZER_PROXY_UNWRAP then Inr (Ref target, s)
      else
        (case storeStringRead c (objs s) target property of
           Inl e \<Rightarrow> Inl e
         | Inr None \<Rightarrow> handlerGetValue hst c s target property
         | Inr (Some (unwrappedPropValue, h0)) \<Rightarrow>
             (case unwrappedPropValue of
                Str u \<Rightarrow>
                  if length u \<ge> 1 \<and> charCodeAt u 0 = Some String_VALUE
                  then (case allocate hst h0 u of
                          Inl e \<Rightarrow> Inl e
                        | Inr (r, h') \<Rightarrow> Inr (r, s \<lparr> objs := h' \<rparr>))
                  else handlerGetValue hst c (s \<lparr> objs := h0 \<rparr>) target property
              | _ \<Rightarrow> handlerGetValue hst c (s \<lparr> objs := h0 \<rparr>) target property)))"

text \<open>
  The \<open>set\<close> trap: a non-empty string whose first unit is in the control range is
  stored behind \<open>String_CHAR\<close>.
\<close>

definition handlerSet :: "dstate \<Rightarrow> addr \<Rightarrow> pkey \<Rightarrow> val \<Rightarrow> dstate" where
  "handlerSet s target property newValue =
     (case newValue of
        Str t \<Rightarrow>
          if length t \<ge> 1 \<and> (case charCodeAt t 0 of Some ch \<Rightarrow> ch < LAST_VALUE | None \<Rightarrow> False)
          then s \<lparr> objs := reflectSet (objs s) target property (Str (String_VALUE # t)) \<rparr>
          else s \<lparr> objs := reflectSet (objs s) target property newValue \<rparr>
      | _ \<Rightarrow> s \<lparr> objs := reflectSet (objs s) target property newValue \<rparr>)"

section \<open>Invariants and example values\<close>

text \<open>
  The invariant of the context: an id other than the seen-once sentinel is an index into
  the root list, and the object at that index is the one that carries the id.
\<close>

definition ctx_inv :: "'k serctx \<Rightarrow> bool" where
  "ctx_inv c \<longleftrightarrow>
     (\<forall>ob i. objMap c ob = Some i \<longrightarrow> i \<noteq> MIN_SAFE_INTEGER \<longrightarrow>
        0 \<le> i \<and> nat i < length (roots c) \<and> roots c ! nat i = ob)"

text \<open>
  A heap of the host: the target of a proxy exists before the proxy does. In a state of
  the decoder, \<open>deserializedProxyMap\<close> holds only what \<open>wrapDeserializerProxy\<close> put there:
  the deserializer proxy of the key.
\<close>

definition wfHeap :: "heap \<Rightarrow> bool" where
  "wfHeap h \<longleftrightarrow>
     (\<forall>a < length h. case h ! a of
                        DeserializerProxy t \<Rightarrow> t < a
                      | StoreProxy t _ \<Rightarrow> t < a
                      | _ \<Rightarrow> True)"

definition wfState :: "dstate \<Rightarrow> bool" where
  "wfState s \<longleftrightarrow>
     wfHeap (objs s) \<and>
     (\<forall>a p. deserializedProxyMap s a = Some p \<longrightarrow> lookup (objs s) p = Some (DeserializerProxy a))"

text \<open>Concrete collaborators and states, for the instances the theorems are run on.\<close>

definition exampleHost :: host where
  "exampleHost = \<lparr> numberToString = (\<lambda>r. []), stringToBigInt = (\<lambda>t. None),
                    jsonStringify = (\<lambda>t. [0x22] @ t @ [0x22]), atob = (\<lambda>t. Some t),
                    newURL = (\<lambda>t. Some t), newRegExp = (\<lambda>src fl. Some (src, fl)) \<rparr>"

definition exampleContainer :: container where
  "exampleContainer =
     \<lparr> getObjectById = (\<lambda>v. Undefined), elementsOf = (\<lambda>v. []), ownPropsOf = (\<lambda>v. []),
       containerElement = Null, ownerDocument = Null, vnode_locate = (\<lambda>t. Undefined),
       vnode_isVNode = (\<lambda>v. False), vnode_getNode = (\<lambda>v. v), getSyncFn = (\<lambda>v. Undefined),
       callFunction = (\<lambda>f args h. (Undefined, h)), Slot = Undefined, Fragment = Undefined \<rparr>"

definition exampleEnv :: senv where
  "exampleEnv = \<lparr> noSerialize = (\<lambda>a. False), hasNodeConstructor = False, HOST = 1, SIGNAL = 2,
                   qDev = True, callFn = (\<lambda>f args h. (Undefined, h)),
                   proxyReads = (\<lambda>h a. Inr ([], h)),
                   writeOther = (\<lambda>v idx st. Inl OutsideModel) \<rparr>"

definition dstateOf :: "heap \<Rightarrow> dstate" where
  "dstateOf h = \<lparr> objs = h, deserializedProxyMap = (\<lambda>a. None), storeProxyMap = (\<lambda>a. None),
                  inflated = [] \<rparr>"

definition sstateOf :: "heap \<Rightarrow> sstate" where
  "sstateOf h = \<lparr> sctx = createSerializationContext, sobjs = h, rootIdOf = (\<lambda>a. None),
                  discoveredValues = [], promises = [], written = [], depth = - 1 \<rparr>"

text \<open>A decoded container: an object literal or an array.\<close>

definition rawContainer :: "heap \<Rightarrow> addr \<Rightarrow> bool" where
  "rawContainer h a =
     (case lookup h a of Some (ObjectLiteral _) \<Rightarrow> True | Some (ArrayObj _) \<Rightarrow> True | _ \<Rightarrow> False)"

text \<open>
  The target of a deserializer proxy as \<open>wrapDeserializerProxy\<close> makes one: a decoded
  object literal or array, or a reactive store over one.
\<close>

definition containerBase :: "heap \<Rightarrow> addr \<Rightarrow> addr option" where
  "containerBase h target =
     (case lookup h target of
        Some (ObjectLiteral _) \<Rightarrow> Some target
      | Some (ArrayObj _) \<Rightarrow> Some target
      | Some (StoreProxy t _) \<Rightarrow>
          if rawContainer h t \<and> slotOf h t SERIALIZER_PROXY_UNWRAP = None then Some t else None
      | _ \<Rightarrow> None)"

text \<open>
  A key under which the ordinary object holds, or can take, a data property: not the
  unwrap symbol and not one of the read-only accessors of an object; an index of an
  array.
\<close>

definition dataKey :: "heap \<Rightarrow> addr \<Rightarrow> pkey \<Rightarrow> bool" where
  "dataKey h b k =
     (case lookup h b of
        Some (ObjectLiteral ps) \<Rightarrow>
          k \<noteq> SERIALIZER_PROXY_UNWRAP \<and> (case map_of ps k of Some (Getter _) \<Rightarrow> False | _ \<Rightarrow> True)
      | Some (ArrayObj xs) \<Rightarrow> (case k of PIndex _ \<Rightarrow> True | _ \<Rightarrow> False)
      | _ \<Rightarrow> False)"

definition exampleProps :: dstate where
  "exampleProps = dstateOf [ObjectLiteral [(PName [0x61], Data (Num (Finite 1)))]]"

text \<open>
  The units of a printed integer: decimal digits (and a minus sign), none of which is
  the space or a bracket that the cursor of \<open>inflate\<close> stops at or counts.
\<close>

definition isDigitChar :: "jschar \<Rightarrow> bool" where
  "isDigitChar c \<longleftrightarrow> 48 \<le> unat c \<and> unat c \<le> 57"

definition plainChar :: "jschar \<Rightarrow> bool" where
  "plainChar c \<longleftrightarrow> c \<noteq> 32 \<and> c \<noteq> 91 \<and> c \<noteq> 93"

text \<open>
  The encoder writes an object in full, and not as a back reference, when it is at most
  one level below the root array or has no root id.
\<close>

definition writtenInFull :: "sstate \<Rightarrow> val \<Rightarrow> bool" where
  "writtenInFull st v \<longleftrightarrow>
     \<not> (1 < depth st \<and> (case wasSeen (sctx st) v of Some n \<Rightarrow> 0 \<le> n | None \<Rightarrow> False))"

definition exampleResolver :: container where
  "exampleResolver = exampleContainer \<lparr> getObjectById := (\<lambda>v. Ref 0),
                                        elementsOf := (\<lambda>v. [Str [0x61], Str [0x62]]) \<rparr>"


definition examplePromise :: sstate where
  "examplePromise = sstateOf [PromiseObj Pending]"





text \<open>
  The values of the own enumerable string-keyed properties of an object literal, in
  their order: the value of a data property, and for an accessor the value it returns.
\<close>

definition propertyValues :: "senv \<Rightarrow> heap \<Rightarrow> (pkey \<times> slot) list \<Rightarrow> val list" where
  "propertyValues env h ps =
     map (\<lambda>(k, sl). case sl of Data v \<Rightarrow> v | Getter d \<Rightarrow> fst (getterValue env h d))
       (filter (\<lambda>(k, sl). case k of PName _ \<Rightarrow> True | PIndex _ \<Rightarrow> True | _ \<Rightarrow> False) ps)"

text \<open>
  An object literal whose reads are stable: no key occurs twice, and running an accessor
  changes nothing on the heap. Every other value has stable reads.
\<close>

definition stableReads :: "senv \<Rightarrow> heap \<Rightarrow> val \<Rightarrow> bool" where
  "stableReads env h ob =
     (case ob of
        Ref a \<Rightarrow>
          (case lookup h a of
             Some (ObjectLiteral ps) \<Rightarrow>
               distinct (map fst ps) \<and>
               list_all (\<lambda>(k, sl). case sl of Getter d \<Rightarrow> snd (getterValue env h d) = h | Data _ \<Rightarrow> True) ps
           | _ \<Rightarrow> True)
      | _ \<Rightarrow> True)"

text \<open>
  What the walker pushes when it scans an object: the elements of an array or set, the
  keys and values of a map followed by the new array that flattens them, the own
  enumerable properties of an object literal, the current value of a signal and the
  hosts and signals of its subscribers, the target of a signal wrapper, the element,
  QRL and state of a task, the type, props, constant props and children of a JSX node,
  the two parts of a props proxy, what the reads through a deserializer proxy give;
  nothing for a no-serialize object and for the classes the walker treats as
  primitives.
\<close>

definition children :: "senv \<Rightarrow> heap \<Rightarrow> val \<Rightarrow> val list" where
  "children env h ob =
     (case ob of
        Ref a \<Rightarrow>
          (if noSerialize env a then []
           else
             (case lookup h a of
                Some (SetObj xs) \<Rightarrow> xs
              | Some (MapObj m) \<Rightarrow> concat (map (\<lambda>(k, v). [k, v]) m) @ [Ref (length h)]
              | Some (SignalImplObj untrackedValue manager) \<Rightarrow>
                  untrackedValue #
                  (case manager of
                     None \<Rightarrow> []
                   | Some subs \<Rightarrow>
                       concat (map (\<lambda>sub. nthOr sub (HOST env) #
                                      (if ob \<noteq> nthOr sub (SIGNAL env)
                                       then [nthOr sub (SIGNAL env)] else []))
                                 subs))
              | Some (SignalWrapperObj r _) \<Rightarrow> [r]
              | Some (TaskObj _ _ el qrl state) \<Rightarrow> [el, qrl, state]
              | Some (JSXNodeObj type _ constProps kids _ _ props) \<Rightarrow> [type, props, constProps, kids]
              | Some (ArrayObj xs) \<Rightarrow> xs
              | Some (PropsProxyObj varProps constProps) \<Rightarrow> [varProps, constProps]
              | Some (ObjectLiteral ps) \<Rightarrow> propertyValues env h ps
              | Some (DeserializerProxy _) \<Rightarrow>
                  (case proxyReads env h a of Inr (vs, _) \<Rightarrow> vs | Inl _ \<Rightarrow> [])
              | _ \<Rightarrow> []))
      | _ \<Rightarrow> [])"

definition exampleStore :: sstate where
  "exampleStore = sstateOf [ObjectLiteral [], StoreProxy 0 []]"

text \<open>
  An object literal with a data property and an accessor over a derived signal, and an
  environment in which the closure of the signal returns its first argument.
\<close>

definition exampleGraph :: sstate where
  "exampleGraph =
     sstateOf [ObjectLiteral [(PName [0x61], Data (Ref 1)), (PName [0x62], Getter 2)],
               ArrayObj [Num (Finite 1)],
               SignalDerivedObj Null [Str [0x78]]]"

definition exampleCaller :: senv where
  "exampleCaller = exampleEnv \<lparr> callFn := (\<lambda>f args h. (nthOr args 0, h)) \<rparr>"

text \<open>
  Proxies, and the objects \<open>allocate\<close> makes other than a component.
\<close>

definition isProxy :: "obj \<Rightarrow> bool" where
  "isProxy ob = (case ob of DeserializerProxy _ \<Rightarrow> True | StoreProxy _ _ \<Rightarrow> True | _ \<Rightarrow> False)"

definition targetBelow :: "obj \<Rightarrow> addr \<Rightarrow> bool" where
  "targetBelow ob x = (case ob of DeserializerProxy t \<Rightarrow> t < x | StoreProxy t _ \<Rightarrow> t < x | _ \<Rightarrow> True)"

text \<open>
  A step of the heap: it does not shrink; an old object outside \<open>T\<close> stays as it is, a
  proxy stays as it is, an object that is no proxy does not become one; and a new proxy
  has an older target.
\<close>

definition heapStep :: "addr set \<Rightarrow> heap \<Rightarrow> heap \<Rightarrow> bool" where
  "heapStep T h h' \<longleftrightarrow>
     length h \<le> length h' \<and>
     (\<forall>x < length h. (x \<notin> T \<longrightarrow> h' ! x = h ! x) \<and>
                      (\<not> isProxy (h ! x) \<longrightarrow> \<not> isProxy (h' ! x)) \<and>
                      (isProxy (h ! x) \<longrightarrow> h' ! x = h ! x)) \<and>
     (\<forall>x. length h \<le> x \<longrightarrow> x < length h' \<longrightarrow> targetBelow (h' ! x) x)"









section \<open>Basic facts\<close>

lemmas tag_defs =
  UNDEFINED_VALUE_def REFERENCE_VALUE_def URL_VALUE_def Date_VALUE_def Regex_VALUE_def
  String_VALUE_def VNode_VALUE_def NotFinite_VALUE_def BigInt_VALUE_def
  URLSearchParams_VALUE_def Error_VALUE_def QRL_VALUE_def Task_VALUE_def Resource_VALUE_def
  Component_VALUE_def DerivedSignal_VALUE_def Signal_VALUE_def SignalWrapper_VALUE_def
  Store_VALUE_def FormData_VALUE_def JSXNode_VALUE_def Set_VALUE_def Map_VALUE_def
  Promise_VALUE_def Uint8Array_VALUE_def PropsProxy_VALUE_def LAST_VALUE_def

lemma js_simps: "js [] = []" "js (x # xs) = of_char x # js xs"
  by (simp_all add: js_def)

lemma substringFrom_1: "substringFrom (t # s) 1 = s"
  by (simp add: substringFrom_def substring_def Let_def)

lemma allocate_String: "allocate hst h (String_VALUE # s) = Inr (Str s, h)"
  by (simp add: allocate_def charCodeAt_def tag_defs substringFrom_1)

section \<open>Root ids in payloads: printing and parsing\<close>

lemma unat_digitChar: "d < 10 \<Longrightarrow> unat (digitChar d) = 48 + d"
  unfolding digitChar_def unat_of_nat by simp

lemma isDigitChar_digitChar: "d < 10 \<Longrightarrow> isDigitChar (digitChar d)"
  by (simp add: isDigitChar_def unat_digitChar)

lemma digitValue_digitChar: "d < 10 \<Longrightarrow> digitValue 10 (digitChar d) = Some d"
  by (simp add: digitValue_def unat_digitChar Let_def)

lemma digitsOf_digits: "\<forall>c \<in> set (digitsOf n). isDigitChar c"
proof (induction n rule: digitsOf.induct)
  case (1 n)
  show ?case
  proof (cases "n < 10")
    case True
    then show ?thesis by (subst digitsOf.simps) (simp add: isDigitChar_digitChar)
  next
    case False
    then show ?thesis using 1 by (subst digitsOf.simps) (simp add: isDigitChar_digitChar)
  qed
qed

lemma digitsOf_nonempty: "digitsOf n \<noteq> []"
  by (subst digitsOf.simps) simp

lemma isDigitChar_value: "isDigitChar c \<Longrightarrow> \<exists>d < 10. digitValue 10 c = Some d"
  by (auto simp: isDigitChar_def digitValue_def Let_def)

lemma parseDigits_snoc:
  "\<forall>c \<in> set ds. isDigitChar c \<Longrightarrow> d < 10 \<Longrightarrow>
   parseDigits 10 (ds @ [digitChar d]) acc
     = Some ((case parseDigits 10 ds acc of None \<Rightarrow> 0 | Some a \<Rightarrow> a) * 10 + d)"
proof (induction ds arbitrary: acc)
  case Nil
  then show ?case by (simp add: digitValue_digitChar)
next
  case (Cons c ds)
  from Cons.prems have "isDigitChar c" by simp
  then obtain e where "e < 10" "digitValue 10 c = Some e" using isDigitChar_value by blast
  with Cons show ?case by simp
qed

lemma parseDigits_digitsOf: "parseDigits 10 (digitsOf n) None = Some n"
proof (induction n rule: digitsOf.induct)
  case (1 n)
  show ?case
  proof (cases "n < 10")
    case True
    then show ?thesis by (subst digitsOf.simps) (simp add: digitValue_digitChar)
  next
    case False
    then have ih: "parseDigits 10 (digitsOf (n div 10)) None = Some (n div 10)" using 1 by simp
    have "parseDigits 10 (digitsOf (n div 10) @ [digitChar (n mod 10)]) None
            = Some ((case parseDigits 10 (digitsOf (n div 10)) None of None \<Rightarrow> 0 | Some a \<Rightarrow> a) * 10 + n mod 10)"
      by (rule parseDigits_snoc) (simp_all add: digitsOf_digits)
    with ih False show ?thesis by (subst digitsOf.simps) simp
  qed
qed

lemma isDigitChar_facts:
  assumes "isDigitChar c"
  shows "\<not> isWhiteSpace c" "c \<noteq> 0x2d" "c \<noteq> 0x2b" "c \<noteq> 0x78" "c \<noteq> 0x58" "c \<noteq> 32" "c \<noteq> 91" "c \<noteq> 93"
proof -
  have u: "48 \<le> unat c" "unat c \<le> 57" using assms by (simp_all add: isDigitChar_def)
  have ne: "unat c \<noteq> unat (w :: jschar)" if "unat w < 48 \<or> 57 < unat w" for w
    using u that by auto
  show "\<not> isWhiteSpace c"
    unfolding isWhiteSpace_def word_le_nat_alt word_unat_eq_iff using u by simp
  show "c \<noteq> 0x2d" "c \<noteq> 0x2b" "c \<noteq> 0x78" "c \<noteq> 0x58" "c \<noteq> 32" "c \<noteq> 91" "c \<noteq> 93"
    unfolding word_unat_eq_iff using u by simp_all
qed

lemma take2_digits:
  assumes "\<forall>c \<in> set ds. isDigitChar c"
  shows "take 2 ds \<noteq> [0x30, 0x78]" "take 2 ds \<noteq> [0x30, 0x58]"
proof -
  have "take 2 ds = [a, b] \<Longrightarrow> isDigitChar b" for a b
  proof -
    assume "take 2 ds = [a, b]"
    then have "b \<in> set (take 2 ds)" by simp
    then have "b \<in> set ds" by (rule in_set_takeD)
    with assms show ?thesis by simp
  qed
  then show "take 2 ds \<noteq> [0x30, 0x78]" "take 2 ds \<noteq> [0x30, 0x58]"
    using isDigitChar_facts(4,5) by blast+
qed

lemma parseUnsigned_digitsOf: "parseUnsigned (digitsOf n) = Some n"
  using take2_digits[OF digitsOf_digits, of n]
  by (simp add: parseUnsigned_def parseDigits_digitsOf)

lemma parseInt_intToString: "parseInt (intToString i) = Some i"
proof (cases "i < 0")
  case True
  have ws: "\<not> isWhiteSpace 0x2d" by (simp add: isWhiteSpace_def)
  from True show ?thesis
    by (simp add: intToString_def parseInt_def ws parseUnsigned_digitsOf)
next
  case False
  obtain c cs where d: "digitsOf (nat i) = c # cs" using digitsOf_nonempty by (cases "digitsOf (nat i)") auto
  then have "isDigitChar c" using digitsOf_digits[of "nat i"] by simp
  then have f: "\<not> isWhiteSpace c" "c \<noteq> 0x2d" "c \<noteq> 0x2b" using isDigitChar_facts by blast+
  have "parseUnsigned (c # cs) = Some (nat i)" using parseUnsigned_digitsOf[of "nat i"] d by simp
  with False f d show ?thesis by (simp add: intToString_def parseInt_def)
qed



lemma scanRest_plain:
  "\<forall>i. idx \<le> i \<and> i < length r \<longrightarrow> plainChar (r ! i) \<Longrightarrow> scanRest r idx 0 = length r + 1"
proof (induction "length r - idx" arbitrary: idx)
  case 0
  then show ?case by (subst scanRest.simps) simp
next
  case (Suc k)
  then have lt: "idx < length r" by simp
  with Suc.prems have p: "plainChar (r ! idx)" by simp
  have "scanRest r (Suc idx) 0 = length r + 1"
    using Suc by (intro Suc.hyps(1)) auto
  with lt p show ?case by (subst scanRest.simps) (simp add: plainChar_def Let_def)
qed

lemma intToString_plain: "\<forall>c \<in> set (intToString i). plainChar c"
  using digitsOf_digits isDigitChar_facts(6,7,8)
  by (auto simp: intToString_def plainChar_def)

lemma restInt_id:
  "restInt \<lparr> rest = t # intToString i, restIdx = 1 \<rparr>
     = (Some i, \<lparr> rest = t # intToString i, restIdx = length (intToString i) + 2 \<rparr>)"
proof -
  let ?r = "t # intToString i"
  have "\<forall>j. 1 \<le> j \<and> j < length ?r \<longrightarrow> plainChar (?r ! j)"
    using intToString_plain[of i] by (auto simp: nth_Cons' )
  then have sc: "scanRest ?r 1 0 = length ?r + 1" by (rule scanRest_plain)
  have sub: "substring ?r 1 (int (length ?r + 1) - 1) = intToString i"
    by (simp add: substring_def Let_def)
  show ?thesis
    using sc sub by (simp add: restInt_def restString_def Let_def parseInt_intToString)
qed


section \<open>The root table\<close>
lemma ctx_inv_create: "ctx_inv createSerializationContext"
  by (simp add: ctx_inv_def createSerializationContext_def)

lemma ctx_inv_seen: "ctx_inv c \<Longrightarrow> wasSeen c ob = None \<Longrightarrow> ctx_inv (seen c ob)"
  by (auto simp: ctx_inv_def seen_def wasSeen_def)

lemma ctx_inv_addRoot: "ctx_inv c \<Longrightarrow> ctx_inv (snd (addRoot c ob))"
  unfolding ctx_inv_def addRoot_def
  by (auto simp: nth_append less_Suc_eq split: option.splits if_splits)

lemma ctx_inv_steps: "ctx_steps c c' \<Longrightarrow> ctx_inv c \<Longrightarrow> ctx_inv c'"
  by (induction rule: ctx_steps.induct) (auto intro: ctx_inv_seen ctx_inv_addRoot)

lemma hasRootId_seen: "wasSeen c ob = None \<Longrightarrow> hasRootId c x = Some i \<Longrightarrow> hasRootId (seen c ob) x = Some i"
  by (auto simp: hasRootId_def seen_def wasSeen_def split: option.splits if_splits)

lemma hasRootId_addRoot: "hasRootId c x = Some i \<Longrightarrow> hasRootId (snd (addRoot c ob)) x = Some i"
  by (auto simp: hasRootId_def addRoot_def split: option.splits if_splits)

lemma hasRootId_steps: "ctx_steps c c' \<Longrightarrow> hasRootId c x = Some i \<Longrightarrow> hasRootId c' x = Some i"
  by (induction rule: ctx_steps.induct) (auto intro: hasRootId_seen hasRootId_addRoot)

lemma addRoot_rooted: "hasRootId c ob = Some i \<Longrightarrow> fst (addRoot c ob) = i"
  unfolding hasRootId_def addRoot_def by (cases "objMap c ob") (auto split: if_splits)

lemma MIN_neg: "MIN_SAFE_INTEGER < 0" by (simp add: MIN_SAFE_INTEGER_def)

text \<open>
  Claim C4. In a context that was created empty and then used through \<open>$addRoot$\<close> (and
  \<open>$seen$\<close> as the walker calls it), an object without a root id is promoted to the id
  that equals the current length of the root list and is appended to the list; an
  object with a root id keeps it: \<open>$addRoot$\<close> returns it again and changes nothing, the
  id is an index of the root list that holds this very object, no other object has the
  same id, and after any further use of the context the object still has this id.
\<close>

theorem root_ids_stable:
  assumes "ctx_steps createSerializationContext c"
  shows "(hasRootId c ob = None \<longrightarrow>
            fst (addRoot c ob) = int (length (roots c)) \<and>
            roots (snd (addRoot c ob)) = roots c @ [ob] \<and>
            hasRootId (snd (addRoot c ob)) ob = Some (int (length (roots c))))
       \<and> (\<forall>i. hasRootId c ob = Some i \<longrightarrow>
            fst (addRoot c ob) = i \<and> snd (addRoot c ob) = c \<and>
            0 \<le> i \<and> nat i < length (roots c) \<and> roots c ! nat i = ob \<and>
            (\<forall>ob'. hasRootId c ob' = Some i \<longrightarrow> ob' = ob) \<and>
            (\<forall>c'. ctx_steps c c' \<longrightarrow> hasRootId c' ob = Some i \<and> fst (addRoot c' ob) = i))"
proof -
  have inv: "ctx_inv c" using assms ctx_inv_steps ctx_inv_create by blast
  have a: "hasRootId c ob = None \<longrightarrow>
            fst (addRoot c ob) = int (length (roots c)) \<and>
            roots (snd (addRoot c ob)) = roots c @ [ob] \<and>
            hasRootId (snd (addRoot c ob)) ob = Some (int (length (roots c)))"
    using MIN_neg by (auto simp: hasRootId_def addRoot_def split: option.splits if_splits)
  have b: "hasRootId c ob = Some i \<Longrightarrow>
            fst (addRoot c ob) = i \<and> snd (addRoot c ob) = c \<and>
            0 \<le> i \<and> nat i < length (roots c) \<and> roots c ! nat i = ob \<and>
            (\<forall>ob'. hasRootId c ob' = Some i \<longrightarrow> ob' = ob) \<and>
            (\<forall>c'. ctx_steps c c' \<longrightarrow> hasRootId c' ob = Some i \<and> fst (addRoot c' ob) = i)" for i
  proof -
    assume h: "hasRootId c ob = Some i"
    then have m: "objMap c ob = Some i" "i \<noteq> MIN_SAFE_INTEGER"
      by (auto simp: hasRootId_def split: option.splits if_splits)
    have 1: "fst (addRoot c ob) = i \<and> snd (addRoot c ob) = c" using m by (simp add: addRoot_def)
    have 2: "0 \<le> i \<and> nat i < length (roots c) \<and> roots c ! nat i = ob"
      using inv m unfolding ctx_inv_def by blast
    have 3: "\<forall>ob'. hasRootId c ob' = Some i \<longrightarrow> ob' = ob"
    proof (intro allI impI)
      fix ob' assume "hasRootId c ob' = Some i"
      then have "objMap c ob' = Some i" by (auto simp: hasRootId_def split: option.splits if_splits)
      with inv m have "roots c ! nat i = ob'" unfolding ctx_inv_def by blast
      with 2 show "ob' = ob" by simp
    qed
    have 4: "\<forall>c'. ctx_steps c c' \<longrightarrow> hasRootId c' ob = Some i \<and> fst (addRoot c' ob) = i"
    proof (intro allI impI)
      fix c' assume "ctx_steps c c'"
      then have r: "hasRootId c' ob = Some i" using h by (rule hasRootId_steps)
      then have "fst (addRoot c' ob) = i" by (rule addRoot_rooted)
      with r show "hasRootId c' ob = Some i \<and> fst (addRoot c' ob) = i" by simp
    qed
    from 1 2 3 4 show ?thesis by blast
  qed
  from a b show ?thesis by blast
qed


theorem root_ids_stable_witness:
  "ctx_steps createSerializationContext (snd (addRoot (createSerializationContext :: nat serctx) 7))
   \<and> hasRootId (snd (addRoot createSerializationContext (7 :: nat))) 7 = Some 0
   \<and> fst (addRoot (snd (addRoot createSerializationContext (7 :: nat))) 7) = 0
   \<and> hasRootId (snd (addRoot createSerializationContext (7 :: nat))) 8 = None
   \<and> fst (addRoot (snd (addRoot createSerializationContext (7 :: nat))) 8) = 1"
proof -
  let ?c = "snd (addRoot (createSerializationContext :: nat serctx) 7)"
  have st: "ctx_steps createSerializationContext ?c"
    by (rule steps_addRoot[OF steps_refl])
  have h7: "hasRootId ?c 7 = Some 0"
    by (simp add: addRoot_def createSerializationContext_def hasRootId_def MIN_SAFE_INTEGER_def)
  have h8: "hasRootId ?c 8 = None"
    by (simp add: addRoot_def createSerializationContext_def hasRootId_def)
  have len: "length (roots ?c) = 1"
    by (simp add: addRoot_def createSerializationContext_def)
  from root_ids_stable[OF st, of 7] h7 have a: "fst (addRoot ?c 7) = 0" by simp
  from root_ids_stable[OF st, of 8] h8 len have b: "fst (addRoot ?c 8) = 1" by simp
  from st h7 h8 a b show ?thesis by simp
qed

text \<open>
  Claim C1, at the first root of a context. \<open>$addRoot$\<close> on a fresh context returns the
  id \<open>0\<close>, \<open>$hasRootId$\<close> reports it, and \<open>$getRootId$\<close> on the same object throws
  "Missing root id": its test \<open>!id\<close> takes the id \<open>0\<close> for a missing one.
\<close>

theorem getRootId_of_first_root:
  "fst (addRoot createSerializationContext ob) = 0 \<and>
   hasRootId (snd (addRoot createSerializationContext ob)) ob = Some 0 \<and>
   getRootId (snd (addRoot createSerializationContext ob)) ob = Inl MissingRootId"
  by (simp add: addRoot_def createSerializationContext_def getRootId_def hasRootId_def MIN_SAFE_INTEGER_def)

section \<open>Scalars: strings and numbers\<close>

text \<open>
  Claim C2. For every code unit \<open>c\<close> of the control range (below \<open>0x20\<close>), \<open>writeValue\<close>
  writes the string of \<open>c\<close> followed by \<open>x\<close> as \<open>writeString\<close> of the same string behind
  the string-escape tag; the first unit of that payload is \<open>String_VALUE\<close>, and
  \<open>allocate\<close> on it returns the original two-unit string and leaves the heap as it was.
\<close>

theorem control_string_roundtrip:
  assumes "c < LAST_VALUE"
  shows "writeValue hst env st (Str [c, 0x78]) idx = Inr (writeString hst st (String_VALUE # [c, 0x78]))
       \<and> charCodeAt (String_VALUE # [c, 0x78]) 0 = Some String_VALUE
       \<and> allocate hst h (String_VALUE # [c, 0x78]) = Inr (Str [c, 0x78], h)"
  using assms
  by (simp add: writeValue_def fastSkipSerialize_def shouldTrackObj_def typeofObject_def
      charCodeAt_def allocate_String)

theorem control_string_roundtrip_witness:
  "(0xa :: jschar) < LAST_VALUE
   \<and> writeValue exampleHost exampleEnv (sstateOf []) (Str [0xa, 0x78]) 0
       = Inr (writeString exampleHost (sstateOf []) [0x5, 0xa, 0x78])
   \<and> allocate exampleHost [] [0x5, 0xa, 0x78] = Inr (Str [0xa, 0x78], [])"
proof -
  have lt: "(0xa :: jschar) < LAST_VALUE" by (simp add: LAST_VALUE_def)
  from control_string_roundtrip[OF lt, of exampleHost exampleEnv "sstateOf []" 0 "[]"] lt
  show ?thesis by (simp add: String_VALUE_def)
qed

text \<open>
  Claim C7. \<open>writeValue\<close> writes \<open>NaN\<close> as the not-finite tag alone, the positive
  infinity as the tag and \<open>+\<close>, the negative infinity as the tag and \<open>-\<close>, and a finite
  number as the text \<open>String(value)\<close> gives, unquoted; \<open>allocate\<close> turns the three
  payloads back into \<open>NaN\<close>, \<open>+Infinity\<close> and \<open>-Infinity\<close>.
\<close>

theorem not_finite_numbers:
  "writeValue hst env st (Num NaN) idx = Inr (writeString hst st [NotFinite_VALUE])
   \<and> writeValue hst env st (Num PosInfinity) idx = Inr (writeString hst st [NotFinite_VALUE, 0x2b])
   \<and> writeValue hst env st (Num NegInfinity) idx = Inr (writeString hst st [NotFinite_VALUE, 0x2d])
   \<and> writeValue hst env st (Num (Finite r)) idx = Inr (writerWrite st [numberToString hst r])
   \<and> allocate hst h [NotFinite_VALUE] = Inr (Num NaN, h)
   \<and> allocate hst h [NotFinite_VALUE, 0x2b] = Inr (Num PosInfinity, h)
   \<and> allocate hst h [NotFinite_VALUE, 0x2d] = Inr (Num NegInfinity, h)"
  by (simp add: writeValue_def fastSkipSerialize_def js_simps allocate_def charCodeAt_def tag_defs
      substringFrom_def substring_def Let_def)


theorem not_finite_numbers_witness:
  "writeValue exampleHost exampleEnv (sstateOf []) (Num NegInfinity) 0
     = Inr (writeString exampleHost (sstateOf []) [0x7, 0x2d])
   \<and> allocate exampleHost [] [0x7, 0x2d] = Inr (Num NegInfinity, [])
   \<and> allocate exampleHost [] [0x7] = Inr (Num NaN, [])"
  using not_finite_numbers[of exampleHost exampleEnv "sstateOf []" 0 1 "[]"]
  by (simp add: NotFinite_VALUE_def)

section \<open>The deserializer proxy of a target\<close>

lemma lookup_append: "a < length h \<Longrightarrow> lookup (h @ xs) a = lookup h a"
  by (simp add: lookup_def nth_append)

lemma wfHeap_target:
  assumes "wfHeap h" "a < length h"
  shows "h ! a = DeserializerProxy t \<Longrightarrow> t < a" "h ! a = StoreProxy t subs \<Longrightarrow> t < a"
proof -
  have c: "case h ! a of DeserializerProxy t \<Rightarrow> t < a | StoreProxy t _ \<Rightarrow> t < a | _ \<Rightarrow> True"
    using assms by (simp add: wfHeap_def)
  show "h ! a = DeserializerProxy t \<Longrightarrow> t < a" using c by simp
  show "h ! a = StoreProxy t subs \<Longrightarrow> t < a" using c by simp
qed

lemma followProxies_bound:
  "wfHeap h \<Longrightarrow> a < length h \<Longrightarrow> followProxies n h a \<le> a"
proof (induction n arbitrary: a)
  case 0 then show ?case by simp
next
  case (Suc n)
  show ?case
  proof (cases "h ! a")
    case (DeserializerProxy t)
    then have "t < a" using Suc.prems wfHeap_target by blast
    then have "followProxies n h t \<le> t" using Suc by simp
    with \<open>t < a\<close> DeserializerProxy Suc.prems show ?thesis by (simp add: lookup_def)
  next
    case (StoreProxy t subs)
    then have "t < a" using Suc.prems wfHeap_target by blast
    then have "followProxies n h t \<le> t" using Suc by simp
    with \<open>t < a\<close> StoreProxy Suc.prems show ?thesis by (simp add: lookup_def)
  qed (use Suc.prems in \<open>simp_all add: lookup_def\<close>)
qed

lemma followProxies_append:
  "wfHeap h \<Longrightarrow> a < length h \<Longrightarrow> followProxies n (h @ xs) a = followProxies n h a"
proof (induction n arbitrary: a)
  case 0 then show ?case by simp
next
  case (Suc n)
  show ?case
  proof (cases "h ! a")
    case (DeserializerProxy t)
    then have "t < a" using Suc.prems wfHeap_target by blast
    with Suc DeserializerProxy show ?thesis by (simp add: lookup_def nth_append)
  next
    case (StoreProxy t subs)
    then have "t < a" using Suc.prems wfHeap_target by blast
    with Suc StoreProxy show ?thesis by (simp add: lookup_def nth_append)
  qed (use Suc.prems in \<open>simp_all add: lookup_def nth_append\<close>)
qed

lemma followProxies_fuel:
  "wfHeap h \<Longrightarrow> a < length h \<Longrightarrow> a < n \<Longrightarrow> a < m \<Longrightarrow> followProxies n h a = followProxies m h a"
proof (induction a arbitrary: n m rule: less_induct)
  case (less a)
  obtain n' m' where nm: "n = Suc n'" "m = Suc m'" using less.prems by (cases n; cases m) auto
  show ?case
  proof (cases "h ! a")
    case (DeserializerProxy t)
    then have "t < a" using less.prems wfHeap_target by blast
    then have "followProxies n' h t = followProxies m' h t"
      using less.IH[of t n' m'] less.prems nm by simp
    with DeserializerProxy less.prems nm show ?thesis by (simp add: lookup_def)
  next
    case (StoreProxy t subs)
    then have "t < a" using less.prems wfHeap_target by blast
    then have "followProxies n' h t = followProxies m' h t"
      using less.IH[of t n' m'] less.prems nm by simp
    with StoreProxy less.prems nm show ?thesis by (simp add: lookup_def)
  qed (use less.prems nm in \<open>simp_all add: lookup_def\<close>)
qed

lemma baseOf_append:
  assumes "wfHeap h" "a < length h"
  shows "baseOf (h @ [x]) a = baseOf h a" "baseOf h a < length h"
proof -
  have "followProxies (length h + 1) (h @ [x]) a = followProxies (length h + 1) h a"
    using assms by (rule followProxies_append)
  also have "\<dots> = followProxies (length h) h a"
    using assms by (intro followProxies_fuel) simp_all
  finally show "baseOf (h @ [x]) a = baseOf h a" by (simp add: baseOf_def)
  show "baseOf h a < length h"
    using followProxies_bound[OF assms, of "length h"] assms(2) by (simp add: baseOf_def)
qed

lemma isFunction_append: "a < length h \<Longrightarrow> isFunction (h @ [x]) (Ref a) = isFunction h (Ref a)"
  by (simp add: isFunction_def lookup_append)

lemma typeofObject_append: "a < length h \<Longrightarrow> typeofObject (h @ [x]) (Ref a) = typeofObject h (Ref a)"
  by (simp add: typeofObject_def isFunction_append)

lemma isObjectLiteral_append:
  "wfHeap h \<Longrightarrow> a < length h \<Longrightarrow> isObjectLiteral (h @ [x]) (Ref a) = isObjectLiteral h (Ref a)"
  by (simp add: isObjectLiteral_def baseOf_append lookup_append)

lemma slotOf_append: "a < length h \<Longrightarrow> slotOf (h @ [x]) a k = slotOf h a k"
  by (simp add: slotOf_def lookup_append)

lemma isDeserializerProxy_append:
  "wfHeap h \<Longrightarrow> a < length h \<Longrightarrow> isDeserializerProxy (h @ [x]) (Ref a) = isDeserializerProxy h (Ref a)"
  by (cases "h ! a")
     (simp_all add: isDeserializerProxy_def typeofObject_append baseOf_append
        slotOf_append handlerHas_def lookup_def nth_append)

lemma isObjectLiteral_valid: "isObjectLiteral h (Ref a) \<Longrightarrow> wfHeap h \<Longrightarrow> a < length h"
  apply (rule ccontr)
  apply (simp add: isObjectLiteral_def baseOf_def)
  apply (cases "length h")
   apply (simp add: lookup_def)
  apply (simp add: lookup_def)
  done

lemma wrap_again:
  assumes wfs: "wfState s"
  shows "case wrapDeserializerProxy c s v of
           (p1, s1) \<Rightarrow> wrapDeserializerProxy c s1 v = (p1, s1) \<and> wrapDeserializerProxy c s1 p1 = (p1, s1)"
proof -
  have wf: "wfHeap (objs s)" using wfs by (simp add: wfState_def)
  let ?elig = "typeofObject (objs s) v \<and> v \<noteq> Null \<and> isObjectLiteral (objs s) v \<and> \<not> vnode_isVNode c v"
  show ?thesis
  proof (cases "?elig \<and> \<not> isDeserializerProxy (objs s) v")
    case False
    then have "wrapDeserializerProxy c s v = (v, s)" by (auto simp add: wrapDeserializerProxy_def)
    then show ?thesis by simp
  next
    case True
    then obtain a where v: "v = Ref a" by (cases v) (auto simp: isObjectLiteral_def)
    have a: "a < length (objs s)" using True v wf isObjectLiteral_valid by blast
    show ?thesis
    proof (cases "deserializedProxyMap s a")
      case (Some p)
      then have w: "wrapDeserializerProxy c s v = (Ref p, s)"
        using True v by (simp add: wrapDeserializerProxy_def)
      have "lookup (objs s) p = Some (DeserializerProxy a)" using wfs Some by (simp add: wfState_def)
      then have "isDeserializerProxy (objs s) (Ref p)"
        by (simp add: isDeserializerProxy_def typeofObject_def isFunction_def handlerHas_def)
      then have "wrapDeserializerProxy c s (Ref p) = (Ref p, s)"
        by (simp add: wrapDeserializerProxy_def)
      with w show ?thesis by simp
    next
      case None
      let ?p = "length (objs s)"
      let ?h = "objs s @ [DeserializerProxy a]"
      let ?s1 = "s \<lparr> objs := ?h, deserializedProxyMap := (deserializedProxyMap s)(a \<mapsto> ?p) \<rparr>"
      have w: "wrapDeserializerProxy c s v = (Ref ?p, ?s1)"
        using True v None by (simp add: wrapDeserializerProxy_def alloc_def)
      have 1: "wrapDeserializerProxy c ?s1 v = (Ref ?p, ?s1)"
        using True v a wf
        by (simp add: wrapDeserializerProxy_def typeofObject_append isObjectLiteral_append
            isDeserializerProxy_append)
      have dp: "isDeserializerProxy ?h (Ref ?p)"
        by (simp add: isDeserializerProxy_def typeofObject_def isFunction_def lookup_def handlerHas_def)
      have 2: "wrapDeserializerProxy c ?s1 (Ref ?p) = (Ref ?p, ?s1)"
        using dp by (simp add: wrapDeserializerProxy_def)
      from w 1 2 show ?thesis by simp
    qed
  qed
qed

lemma wrap_fresh:
  assumes wfs: "wfState s"
      and el: "typeofObject (objs s) v" "v \<noteq> Null" "isObjectLiteral (objs s) v" "\<not> vnode_isVNode c v"
      and np: "\<not> isDeserializerProxy (objs s) v"
  shows "\<exists>a p s1. v = Ref a \<and> wrapDeserializerProxy c s v = (Ref p, s1) \<and> p \<noteq> a \<and>
           lookup (objs s1) p = Some (DeserializerProxy a) \<and>
           isDeserializerProxy (objs s1) (Ref p) \<and>
           deserializedProxyMap s1 = (deserializedProxyMap s)(a \<mapsto> p) \<and>
           (case deserializedProxyMap s a of
              Some p0 \<Rightarrow> p = p0 \<and> s1 = s
            | None \<Rightarrow> p = length (objs s) \<and> objs s1 = objs s @ [DeserializerProxy a]) \<and>
           storeProxyMap s1 = storeProxyMap s \<and> inflated s1 = inflated s \<and> wfState s1"
proof -
  have wf: "wfHeap (objs s)" using wfs by (simp add: wfState_def)
  obtain a where v: "v = Ref a" using el(3) by (cases v) (auto simp: isObjectLiteral_def)
  have a: "a < length (objs s)" using el(3) v wf isObjectLiteral_valid by blast
  have idp: "isDeserializerProxy h (Ref p)" if "lookup h p = Some (DeserializerProxy a)" for h p
    using that by (simp add: isDeserializerProxy_def typeofObject_def isFunction_def handlerHas_def)
  show ?thesis
  proof (cases "deserializedProxyMap s a")
    case (Some p)
    then have w: "wrapDeserializerProxy c s v = (Ref p, s)"
      using el np v by (simp add: wrapDeserializerProxy_def)
    have l: "lookup (objs s) p = Some (DeserializerProxy a)" using wfs Some by (simp add: wfState_def)
    have pa: "p \<noteq> a"
    proof
      assume "p = a"
      with l have "isDeserializerProxy (objs s) (Ref a)" using idp by simp
      with np v show False by simp
    qed
    have m: "deserializedProxyMap s = (deserializedProxyMap s)(a \<mapsto> p)" using Some by auto
    show ?thesis using v w l pa idp[OF l] m Some wfs by auto
  next
    case None
    let ?p = "length (objs s)"
    let ?h = "objs s @ [DeserializerProxy a]"
    let ?s1 = "s \<lparr> objs := ?h, deserializedProxyMap := (deserializedProxyMap s)(a \<mapsto> ?p) \<rparr>"
    have w: "wrapDeserializerProxy c s v = (Ref ?p, ?s1)"
      using el np v None by (simp add: wrapDeserializerProxy_def alloc_def)
    have l: "lookup ?h ?p = Some (DeserializerProxy a)" by (simp add: lookup_def)
    have wfh: "wfHeap ?h"
      using wf a by (auto simp: wfHeap_def nth_append less_Suc_eq)
    have wfs1: "wfState ?s1"
      unfolding wfState_def
    proof (intro conjI allI impI)
      show "wfHeap (objs ?s1)" using wfh by simp
    next
      fix x q assume m: "deserializedProxyMap ?s1 x = Some q"
      show "lookup (objs ?s1) q = Some (DeserializerProxy x)"
      proof (cases "x = a")
        case True
        with m show ?thesis by (auto simp add: lookup_def)
      next
        case False
        with m have "deserializedProxyMap s x = Some q" by simp
        then have lq: "lookup (objs s) q = Some (DeserializerProxy x)" using wfs by (simp add: wfState_def)
        then have "q < length (objs s)" by (auto simp: lookup_def split: if_splits)
        with lq show ?thesis by (simp add: lookup_append)
      qed
    qed
    show ?thesis using v w l idp[OF l] None wfs1 a by auto
  qed
qed

text \<open>
  Claim C10. In a well-formed state, for every eligible value (an object that is not
  \<open>null\<close>, is an object literal or an array, and is not a VNode) that is not yet a
  deserializer proxy, \<open>wrapDeserializerProxy\<close> returns a deserializer proxy whose target
  is that value, other than the value itself, and \<open>deserializedProxyMap\<close> records it
  under the target: the proxy already recorded there if there is one (and then nothing
  changes), a new proxy at the end of the heap otherwise. A second call on the same
  target, and a call on the proxy, return that identical proxy and change nothing. A
  value that is already a deserializer proxy is returned unchanged, and so is every value
  that is not eligible.
\<close>

theorem wrapDeserializerProxy_idempotent:
  assumes wfs: "wfState s"
  shows "(typeofObject (objs s) v \<and> v \<noteq> Null \<and> isObjectLiteral (objs s) v \<and> \<not> vnode_isVNode c v
            \<and> \<not> isDeserializerProxy (objs s) v
          \<longrightarrow> (\<exists>a p s1. v = Ref a \<and> wrapDeserializerProxy c s v = (Ref p, s1) \<and> p \<noteq> a \<and>
                  lookup (objs s1) p = Some (DeserializerProxy a) \<and>
                  isDeserializerProxy (objs s1) (Ref p) \<and>
                  deserializedProxyMap s1 = (deserializedProxyMap s)(a \<mapsto> p) \<and>
                  (case deserializedProxyMap s a of
                     Some p0 \<Rightarrow> p = p0 \<and> s1 = s
                   | None \<Rightarrow> p = length (objs s) \<and> objs s1 = objs s @ [DeserializerProxy a]) \<and>
                  wfState s1 \<and>
                  wrapDeserializerProxy c s1 v = (Ref p, s1) \<and>
                  wrapDeserializerProxy c s1 (Ref p) = (Ref p, s1)))
       \<and> (isDeserializerProxy (objs s) v \<longrightarrow> wrapDeserializerProxy c s v = (v, s))
       \<and> (\<not> (typeofObject (objs s) v \<and> v \<noteq> Null \<and> isObjectLiteral (objs s) v \<and> \<not> vnode_isVNode c v)
            \<longrightarrow> wrapDeserializerProxy c s v = (v, s))"
proof (intro conjI impI)
  assume el: "typeofObject (objs s) v \<and> v \<noteq> Null \<and> isObjectLiteral (objs s) v \<and> \<not> vnode_isVNode c v
            \<and> \<not> isDeserializerProxy (objs s) v"
  then obtain a p s1 where f: "v = Ref a" "wrapDeserializerProxy c s v = (Ref p, s1)" "p \<noteq> a"
      "lookup (objs s1) p = Some (DeserializerProxy a)" "isDeserializerProxy (objs s1) (Ref p)"
      "deserializedProxyMap s1 = (deserializedProxyMap s)(a \<mapsto> p)"
      "case deserializedProxyMap s a of
         Some p0 \<Rightarrow> p = p0 \<and> s1 = s
       | None \<Rightarrow> p = length (objs s) \<and> objs s1 = objs s @ [DeserializerProxy a]"
      "wfState s1"
    using wrap_fresh[OF wfs, of v c] by blast
  from wrap_again[OF wfs, of c v] f(2)
  have again: "wrapDeserializerProxy c s1 v = (Ref p, s1)" "wrapDeserializerProxy c s1 (Ref p) = (Ref p, s1)"
    by simp_all
  show "\<exists>a p s1. v = Ref a \<and> wrapDeserializerProxy c s v = (Ref p, s1) \<and> p \<noteq> a \<and>
                  lookup (objs s1) p = Some (DeserializerProxy a) \<and>
                  isDeserializerProxy (objs s1) (Ref p) \<and>
                  deserializedProxyMap s1 = (deserializedProxyMap s)(a \<mapsto> p) \<and>
                  (case deserializedProxyMap s a of
                     Some p0 \<Rightarrow> p = p0 \<and> s1 = s
                   | None \<Rightarrow> p = length (objs s) \<and> objs s1 = objs s @ [DeserializerProxy a]) \<and>
                  wfState s1 \<and>
                  wrapDeserializerProxy c s1 v = (Ref p, s1) \<and>
                  wrapDeserializerProxy c s1 (Ref p) = (Ref p, s1)"
    using f again by blast
next
  assume "isDeserializerProxy (objs s) v"
  then show "wrapDeserializerProxy c s v = (v, s)" by (simp add: wrapDeserializerProxy_def)
next
  assume "\<not> (typeofObject (objs s) v \<and> v \<noteq> Null \<and> isObjectLiteral (objs s) v \<and> \<not> vnode_isVNode c v)"
  then show "wrapDeserializerProxy c s v = (v, s)" by (auto simp add: wrapDeserializerProxy_def)
qed

theorem wrapDeserializerProxy_idempotent_witness:
  "wfState (dstateOf [ObjectLiteral []])
   \<and> wrapDeserializerProxy exampleContainer (dstateOf [ObjectLiteral []]) (Ref 0)
       = (Ref 1, (dstateOf [ObjectLiteral [], DeserializerProxy 0])
                   \<lparr> deserializedProxyMap := (\<lambda>a. None)(0 \<mapsto> 1) \<rparr>)
   \<and> wrapDeserializerProxy exampleContainer
        (snd (wrapDeserializerProxy exampleContainer (dstateOf [ObjectLiteral []]) (Ref 0))) (Ref 0)
      = wrapDeserializerProxy exampleContainer (dstateOf [ObjectLiteral []]) (Ref 0)
   \<and> wrapDeserializerProxy exampleContainer
        (snd (wrapDeserializerProxy exampleContainer (dstateOf [ObjectLiteral []]) (Ref 0))) (Ref 1)
      = wrapDeserializerProxy exampleContainer (dstateOf [ObjectLiteral []]) (Ref 0)"
proof -
  have wf: "wfState (dstateOf [ObjectLiteral []])"
    by (simp add: wfState_def wfHeap_def dstateOf_def)
  have el: "typeofObject (objs (dstateOf [ObjectLiteral []])) (Ref 0)"
           "isObjectLiteral (objs (dstateOf [ObjectLiteral []])) (Ref 0)"
           "\<not> vnode_isVNode exampleContainer (Ref 0)"
           "\<not> isDeserializerProxy (objs (dstateOf [ObjectLiteral []])) (Ref 0)"
    by (simp_all add: dstateOf_def exampleContainer_def typeofObject_def
        isFunction_def lookup_def isObjectLiteral_def baseOf_def isDeserializerProxy_def slotOf_def)
  have f: "wrapDeserializerProxy exampleContainer (dstateOf [ObjectLiteral []]) (Ref 0)
       = (Ref 1, (dstateOf [ObjectLiteral [], DeserializerProxy 0])
                   \<lparr> deserializedProxyMap := (\<lambda>a. None)(0 \<mapsto> 1) \<rparr>)"
    using el by (simp add: wrapDeserializerProxy_def dstateOf_def alloc_def)
  from wrapDeserializerProxy_idempotent[OF wf, of "Ref 0" exampleContainer] wf el f
  show ?thesis by auto
qed

section \<open>Writes and reads of strings through the wrapper\<close>

lemma followProxies_raw: "rawContainer h a \<Longrightarrow> followProxies n h a = a"
  by (cases n) (auto simp: rawContainer_def split: option.splits obj.splits)

lemma baseOf_raw: "rawContainer h a \<Longrightarrow> baseOf h a = a"
  by (simp add: baseOf_def followProxies_raw)

lemma baseOf_store:
  "lookup h a = Some (StoreProxy t subs) \<Longrightarrow> rawContainer h t \<Longrightarrow> baseOf h a = t"
  by (cases "length h") (auto simp: baseOf_def followProxies_raw lookup_def split: if_splits)

lemma containerBase_baseOf: "containerBase h target = Some b \<Longrightarrow> baseOf h target = b \<and> rawContainer h b"
  by (auto simp: containerBase_def baseOf_raw baseOf_store rawContainer_def
      split: option.splits obj.splits if_splits)

lemma map_of_assignProp_data:
  "(case map_of ps k of Some (Getter _) \<Rightarrow> False | _ \<Rightarrow> True)
   \<Longrightarrow> map_of (assignProp ps k v) k = Some (Data v)"
  by (induction ps k v rule: assignProp.induct) (auto split: slot.splits)

lemma map_of_assignProp_other:
  "k' \<noteq> k \<Longrightarrow> map_of (assignProp ps k v) k' = map_of ps k'"
  by (induction ps k v rule: assignProp.induct) (auto split: slot.splits)

lemma slotOf_reflectSet:
  assumes "rawContainer h b" "dataKey h b k"
  shows "slotOf (h[b := writeProp (h ! b) k v]) b k = Some (Data v)"
  using assms
  by (auto simp: rawContainer_def dataKey_def slotOf_def lookup_def writeProp_def
      map_of_assignProp_data nth_append
      split: option.splits obj.splits if_splits pkey.splits)


lemma wrap_Str: "wrapDeserializerProxy c s (Str t) = (Str t, s)"
  by (simp add: wrapDeserializerProxy_def typeofObject_def)

lemma read_escaped_direct:
  assumes raw: "rawContainer (objs s) target"
      and slot: "slotOf (objs s) target k = Some (Data (Str (String_VALUE # ch # t)))"
      and ctl: "ch < LAST_VALUE"
      and k: "k \<noteq> SERIALIZER_PROXY_UNWRAP"
  shows "handlerGet hst c s target k = Inr (Str (ch # t), s)"
proof -
  have np: "getProxyTarget (objs s) (Ref target) = None"
    using raw by (auto simp: getProxyTarget_def rawContainer_def split: option.splits obj.splits)
  have rg: "reflectGet c (objs s) target k = (Str (String_VALUE # ch # t), objs s)"
    using raw slot by (simp add: reflectGet_def baseOf_raw)
  have m: "materialize hst c s target k String_VALUE (String_VALUE # ch # t)
             = Inr (Materialized (Str (ch # t)) s)"
    by (simp add: materialize_def allocate_String) (simp add: tag_defs)
  have ci: "cacheAndInflate hst c s target k String_VALUE (String_VALUE # ch # t) (Str (ch # t)) = Inr s"
    using ctl by (simp add: cacheAndInflate_def cacheable_def charCodeAt_def not_le[symmetric])
  have lt: "String_VALUE < LAST_VALUE" by (simp add: tag_defs)
  have "handlerGetValue hst c s target k = Inr (Str (ch # t), s)"
    using rg m ci lt by (simp add: handlerGetValue_def charCodeAt_def wrap_Str)
  then show ?thesis using np k by (simp add: handlerGet_def storeStringRead_def)
qed

lemma read_escaped_store:
  assumes st: "lookup (objs s) target = Some (StoreProxy b subs)"
      and raw: "rawContainer (objs s) b"
      and nu: "slotOf (objs s) b SERIALIZER_PROXY_UNWRAP = None"
      and slot: "slotOf (objs s) b k = Some (Data (Str (String_VALUE # ch # t)))"
      and k: "k \<noteq> SERIALIZER_PROXY_UNWRAP"
  shows "handlerGet hst c s target k = Inr (Str (ch # t), s)"
proof -
  have pt: "getProxyTarget (objs s) (Ref target) = Some (Ref b)"
    using st by (simp add: getProxyTarget_def)
  have ruk: "readUnwrapKey (Suc n) (objs s) b = Undefined" for n
    using raw nu by (auto simp: rawContainer_def slotOf_def split: option.splits obj.splits)
  have to: "typeofObject (objs s) (Ref b)"
    using raw by (auto simp: typeofObject_def isFunction_def rawContainer_def split: option.splits obj.splits)
  have ud: "unwrapDeserializerProxy (objs s) (unwrapProxy (objs s) (Ref target)) = Ref b"
    using pt ruk to by (simp add: unwrapProxy_def unwrapDeserializerProxy_def truthy_def)
  have rg: "reflectGet c (objs s) b k = (Str (String_VALUE # ch # t), objs s)"
    using raw slot by (simp add: reflectGet_def baseOf_raw)
  have ssr: "storeStringRead c (objs s) target k = Inr (Some (Str (String_VALUE # ch # t), objs s))"
    using pt ud rg by (simp add: storeStringRead_def)
  show ?thesis using ssr k by (simp add: handlerGet_def charCodeAt_def allocate_String)
qed

lemma read_escaped:
  assumes base: "containerBase (objs s) target = Some b"
      and slot: "slotOf (objs s) b k = Some (Data (Str (String_VALUE # ch # t)))"
      and ctl: "ch < LAST_VALUE"
      and k: "k \<noteq> SERIALIZER_PROXY_UNWRAP"
  shows "handlerGet hst c s target k = Inr (Str (ch # t), s)"
proof (cases "lookup (objs s) target")
  case None
  then show ?thesis using base by (simp add: containerBase_def)
next
  case (Some ob)
  show ?thesis
  proof (cases ob)
    case (StoreProxy t0 subs)
    with Some base have b: "t0 = b" "rawContainer (objs s) b" "slotOf (objs s) b SERIALIZER_PROXY_UNWRAP = None"
      by (auto simp: containerBase_def split: if_splits)
    from read_escaped_store[OF _ b(2) b(3) slot k] Some StoreProxy b(1) show ?thesis by simp
  next
    case (ObjectLiteral ps)
    with Some base have "target = b" "rawContainer (objs s) target"
      by (auto simp: containerBase_def rawContainer_def)
    with read_escaped_direct[OF _ _ ctl k] slot show ?thesis by simp
  next
    case (ArrayObj xs)
    with Some base have "target = b" "rawContainer (objs s) target"
      by (auto simp: containerBase_def rawContainer_def)
    with read_escaped_direct[OF _ _ ctl k] slot show ?thesis by simp
  qed (use Some base in \<open>simp_all add: containerBase_def\<close>)
qed

lemma dataKey_not_unwrap: "dataKey h b k \<Longrightarrow> k \<noteq> SERIALIZER_PROXY_UNWRAP"
  by (auto simp: dataKey_def split: option.splits obj.splits)

lemma write_preserves_base:
  assumes base: "containerBase h target = Some b" and key: "dataKey h b k"
  shows "containerBase (h[b := writeProp (h ! b) k v]) target = Some b"
proof -
  have raw: "rawContainer h b" and bo: "baseOf h target = b"
    using containerBase_baseOf[OF base] by simp_all
  have bl: "b < length h" using raw by (auto simp: rawContainer_def lookup_def split: if_splits)
  have k: "k \<noteq> SERIALIZER_PROXY_UNWRAP" using key by (rule dataKey_not_unwrap)
  have raw': "rawContainer (h[b := writeProp (h ! b) k v]) b"
    using raw bl by (auto simp: rawContainer_def lookup_def writeProp_def split: obj.splits pkey.splits)
  have nu: "slotOf h b SERIALIZER_PROXY_UNWRAP = None \<Longrightarrow>
            slotOf (h[b := writeProp (h ! b) k v]) b SERIALIZER_PROXY_UNWRAP = None"
    using raw bl k
    by (auto simp: rawContainer_def slotOf_def lookup_def writeProp_def map_of_assignProp_other
        split: obj.splits pkey.splits)
  show ?thesis
  proof (cases "target = b")
    case True
    then show ?thesis using raw' by (auto simp: containerBase_def rawContainer_def split: option.splits obj.splits)
  next
    case False
    then have "lookup (h[b := writeProp (h ! b) k v]) target = lookup h target"
      by (simp add: lookup_def)
    then show ?thesis using base False raw' nu
      by (auto simp: containerBase_def split: option.splits obj.splits if_splits)
  qed
qed

text \<open>
  Claim C8. Let the target of the wrapper be a decoded container or a store over one,
  and the key one that holds a data property. For every string whose first unit is in
  the control range, the \<open>set\<close> trap stores the string behind the string-escape tag, and
  the \<open>get\<close> trap on the same key then returns exactly the string and changes nothing.
\<close>

theorem escaped_write_then_read:
  assumes ctl: "ch < LAST_VALUE"
      and base: "containerBase (objs s) target = Some b"
      and key: "dataKey (objs s) b k"
  shows "slotOf (objs (handlerSet s target k (Str (ch # t)))) b k
           = Some (Data (Str (String_VALUE # ch # t)))
       \<and> handlerGet hst c (handlerSet s target k (Str (ch # t))) target k
           = Inr (Str (ch # t), handlerSet s target k (Str (ch # t)))"
proof -
  let ?v = "Str (String_VALUE # ch # t)"
  let ?h' = "(objs s)[b := writeProp (objs s ! b) k ?v]"
  have raw: "rawContainer (objs s) b" and bo: "baseOf (objs s) target = b"
    using containerBase_baseOf[OF base] by simp_all
  have bl: "lookup (objs s) b = Some (objs s ! b)"
    using raw by (auto simp: rawContainer_def lookup_def split: if_splits)
  have hs: "handlerSet s target k (Str (ch # t)) = s \<lparr> objs := ?h' \<rparr>"
    using ctl bo bl by (simp add: handlerSet_def charCodeAt_def reflectSet_def)
  have slot: "slotOf ?h' b k = Some (Data ?v)"
    using raw key by (rule slotOf_reflectSet)
  have base': "containerBase ?h' target = Some b"
    using base key by (rule write_preserves_base)
  have k: "k \<noteq> SERIALIZER_PROXY_UNWRAP" using key by (rule dataKey_not_unwrap)
  have "handlerGet hst c (s \<lparr> objs := ?h' \<rparr>) target k = Inr (Str (ch # t), s \<lparr> objs := ?h' \<rparr>)"
    by (rule read_escaped[where b = b]) (use slot base' ctl k in simp_all)
  with hs slot show ?thesis by simp
qed


theorem escaped_write_then_read_witness:
  "(0x1 :: jschar) < LAST_VALUE
   \<and> containerBase (objs exampleProps) 0 = Some 0
   \<and> dataKey (objs exampleProps) 0 (PName [0x61])
   \<and> slotOf (objs (handlerSet exampleProps 0 (PName [0x61]) (Str [0x1, 0x32]))) 0 (PName [0x61])
       = Some (Data (Str [0x5, 0x1, 0x32]))
   \<and> handlerGet exampleHost exampleContainer
         (handlerSet exampleProps 0 (PName [0x61]) (Str [0x1, 0x32])) 0 (PName [0x61])
       = Inr (Str [0x1, 0x32], handlerSet exampleProps 0 (PName [0x61]) (Str [0x1, 0x32]))"
proof -
  have ctl: "(0x1 :: jschar) < LAST_VALUE" by (simp add: LAST_VALUE_def)
  have base: "containerBase (objs exampleProps) 0 = Some 0"
    by (simp add: containerBase_def exampleProps_def dstateOf_def lookup_def)
  have key: "dataKey (objs exampleProps) 0 (PName [0x61])"
    by (simp add: dataKey_def exampleProps_def dstateOf_def lookup_def)
  from escaped_write_then_read[OF ctl base key, of "[0x32]" exampleHost exampleContainer] ctl base key
  show ?thesis by (simp add: String_VALUE_def)
qed

section \<open>Sets, maps and promises: from the walker to the decoder\<close>




lemma charCodeAt_Cons0: "charCodeAt (t # r) 0 = Some t"
  by (simp add: charCodeAt_def)

lemma restInt_id':
  "restInt \<lparr> rest = t # intToString i, restIdx = Suc 0 \<rparr>
     = (Some i, \<lparr> rest = t # intToString i, restIdx = length (intToString i) + 2 \<rparr>)"
  using restInt_id[of t i] by simp

















lemma not_word_of_int: "NOT (word_of_int i :: 32 word) = word_of_int (- i - 1)"
  by (simp add: not_eq_complement)

lemma sint32: "- (2 ^ 31) \<le> k \<Longrightarrow> k < 2 ^ 31 \<Longrightarrow> sint (word_of_int k :: 32 word) = k"
  by (simp add: sint_sbintrunc' signed_take_bit_int_eq_self)

lemma complement_id:
  assumes "0 \<le> i" "i < 2 ^ 31"
  shows "sint (NOT (word_of_int i :: 32 word)) = - i - 1"
    and "bitNot (Some (- i - 1)) = i"
proof -
  have "sint (word_of_int (- i - 1) :: 32 word) = - i - 1"
    using assms by (intro sint32) simp_all
  then show "sint (NOT (word_of_int i :: 32 word)) = - i - 1"
    by (simp only: not_word_of_int)
  have "NOT (word_of_int (- i - 1) :: 32 word) = word_of_int i"
    by (simp add: not_eq_complement)
  moreover have "sint (word_of_int i :: 32 word) = i"
    using assms by (intro sint32) simp_all
  ultimately show "bitNot (Some (- i - 1)) = i"
    by (simp add: bitNot_def)
qed


lemma MIN_negative: "MIN_SAFE_INTEGER < 0"
  by (simp add: MIN_SAFE_INTEGER_def)

lemma addRoot_result:
  assumes inv: "ctx_inv c"
  shows "0 \<le> fst (addRoot c v)
       \<and> fst (addRoot c v) \<le> int (length (roots c))
       \<and> hasRootId (snd (addRoot c v)) v = Some (fst (addRoot c v))
       \<and> roots (snd (addRoot c v)) ! nat (fst (addRoot c v)) = v"
proof (cases "objMap c v")
  case None
  then show ?thesis using MIN_negative by (simp add: addRoot_def hasRootId_def)
next
  case (Some i)
  show ?thesis
  proof (cases "i = MIN_SAFE_INTEGER")
    case True
    with Some show ?thesis using MIN_negative by (simp add: addRoot_def hasRootId_def)
  next
    case False
    with Some inv have "0 \<le> i \<and> nat i < length (roots c) \<and> roots c ! nat i = v"
      unfolding ctx_inv_def by blast
    with Some False show ?thesis by (auto simp add: addRoot_def hasRootId_def)
  qed
qed

lemma write_Promise:
  assumes "lookup (sobjs st) a = Some (PromiseObj p)" "\<not> noSerialize env a"
          "rootIdOf st a = Some i" "writtenInFull st (Ref a)"
  shows "writeObjectValue hst env st (Ref a) idx = Inr (writeString hst st (Promise_VALUE # intToString i))"
  using assms
  by (auto simp: writeObjectValue_def writtenInFull_def fastSkipSerialize_def
      getSerializableDataRootId_def idText_def Let_def split: option.splits)

lemma allocate_Promise: "allocate hst h (Promise_VALUE # r) = Inr (Ref (length h), h @ [PromiseObj Pending])"
  by (simp add: allocate_def charCodeAt_Cons0 allocObj_def alloc_def tag_defs)

lemma inflate_Promise:
  "inflateShell hst c (h @ [PromiseObj Pending]) (Ref (length h)) (Promise_VALUE # intToString i)
     = Inr (h @ [PromiseObj (if 0 \<le> i then Resolved (getObjectById c (Num (Finite (of_int i))))
                             else Rejected (getObjectById c (Num (Finite (of_int (bitNot (Some i)))))))])"
  by (simp add: inflateShell_def charCodeAt_Cons0 lookup_def restInt_id' numOfInt_def Let_def tag_defs)

text \<open>
  Claim C6. In a context reached from the empty one, with fewer than \<open>2^31\<close> roots: when
  a promise resolves, the callback roots the value and stores its id on the promise;
  the id is not negative, the encoder writes the promise as the promise tag and that
  id, and \<open>allocate\<close> and \<open>inflate\<close> on this payload give a promise resolved with what the
  container resolves the id to. When the promise rejects, the callback roots the error
  and stores \<open>- e - 1\<close>, the complement of its id \<open>e\<close>; that number is negative, the encoder
  writes it after the promise tag, and \<open>allocate\<close> and \<open>inflate\<close> give a promise rejected
  with what the container resolves \<open>e\<close> to.
\<close>

theorem promise_settlement:
  assumes reach: "ctx_steps createSerializationContext (sctx st)"
      and small: "length (roots (sctx st)) < 2 ^ 31"
  shows "(\<exists>i. rootIdOf (promiseResolved st (Ref a) v) a = Some i \<and> 0 \<le> i
            \<and> hasRootId (sctx (promiseResolved st (Ref a) v)) v = Some i
            \<and> roots (sctx (promiseResolved st (Ref a) v)) ! nat i = v
            \<and> (\<forall>st2 p idx. lookup (sobjs st2) a = Some (PromiseObj p) \<and> \<not> noSerialize env a
                    \<and> rootIdOf st2 a = Some i \<and> writtenInFull st2 (Ref a)
                  \<longrightarrow> writeObjectValue hst env st2 (Ref a) idx
                        = Inr (writeString hst st2 (Promise_VALUE # intToString i)))
            \<and> (\<forall>c h. allocate hst h (Promise_VALUE # intToString i)
                         = Inr (Ref (length h), h @ [PromiseObj Pending])
                  \<and> inflateShell hst c (h @ [PromiseObj Pending]) (Ref (length h))
                         (Promise_VALUE # intToString i)
                       = Inr (h @ [PromiseObj (Resolved (getObjectById c (Num (Finite (of_int i)))))])))
       \<and> (\<exists>e j. hasRootId (sctx (promiseRejected st (Ref a) err)) err = Some e
            \<and> roots (sctx (promiseRejected st (Ref a) err)) ! nat e = err
            \<and> rootIdOf (promiseRejected st (Ref a) err) a = Some j \<and> j = - e - 1 \<and> j < 0
            \<and> (\<forall>st2 p idx. lookup (sobjs st2) a = Some (PromiseObj p) \<and> \<not> noSerialize env a
                    \<and> rootIdOf st2 a = Some j \<and> writtenInFull st2 (Ref a)
                  \<longrightarrow> writeObjectValue hst env st2 (Ref a) idx
                        = Inr (writeString hst st2 (Promise_VALUE # intToString j)))
            \<and> (\<forall>c h. allocate hst h (Promise_VALUE # intToString j)
                         = Inr (Ref (length h), h @ [PromiseObj Pending])
                  \<and> inflateShell hst c (h @ [PromiseObj Pending]) (Ref (length h))
                         (Promise_VALUE # intToString j)
                       = Inr (h @ [PromiseObj (Rejected (getObjectById c (Num (Finite (of_int e)))))])))"
proof -
  have inv: "ctx_inv (sctx st)" using reach ctx_inv_steps ctx_inv_create by blast
  let ?i = "fst (addRoot (sctx st) v)"
  let ?e = "fst (addRoot (sctx st) err)"
  note rv = addRoot_result[OF inv, of v]
  note re = addRoot_result[OF inv, of err]
  have A: "rootIdOf (promiseResolved st (Ref a) v) a = Some ?i"
          "sctx (promiseResolved st (Ref a) v) = snd (addRoot (sctx st) v)"
    by (simp_all add: promiseResolved_def setSerializableDataRootId_def Let_def split: prod.splits)
  have e31: "0 \<le> ?e" "?e < 2 ^ 31" using re small by simp_all
  have B: "rootIdOf (promiseRejected st (Ref a) err) a = Some (- ?e - 1)"
          "sctx (promiseRejected st (Ref a) err) = snd (addRoot (sctx st) err)"
    using complement_id(1)[OF e31]
    by (cases "addRoot (sctx st) err"; simp add: promiseRejected_def)+
  have dR: "inflateShell hst c (h @ [PromiseObj Pending]) (Ref (length h)) (Promise_VALUE # intToString ?i)
              = Inr (h @ [PromiseObj (Resolved (getObjectById c (Num (Finite (of_int ?i)))))])" for c h
    using rv by (simp add: inflate_Promise)
  have dE: "inflateShell hst c (h @ [PromiseObj Pending]) (Ref (length h)) (Promise_VALUE # intToString (- ?e - 1))
              = Inr (h @ [PromiseObj (Rejected (getObjectById c (Num (Finite (of_int ?e)))))])" for c h
    using e31 complement_id(2)[OF e31] by (simp add: inflate_Promise)
  have first: "\<exists>i. rootIdOf (promiseResolved st (Ref a) v) a = Some i \<and> 0 \<le> i
            \<and> hasRootId (sctx (promiseResolved st (Ref a) v)) v = Some i
            \<and> roots (sctx (promiseResolved st (Ref a) v)) ! nat i = v
            \<and> (\<forall>st2 p idx. lookup (sobjs st2) a = Some (PromiseObj p) \<and> \<not> noSerialize env a
                    \<and> rootIdOf st2 a = Some i \<and> writtenInFull st2 (Ref a)
                  \<longrightarrow> writeObjectValue hst env st2 (Ref a) idx
                        = Inr (writeString hst st2 (Promise_VALUE # intToString i)))
            \<and> (\<forall>c h. allocate hst h (Promise_VALUE # intToString i)
                         = Inr (Ref (length h), h @ [PromiseObj Pending])
                  \<and> inflateShell hst c (h @ [PromiseObj Pending]) (Ref (length h))
                         (Promise_VALUE # intToString i)
                       = Inr (h @ [PromiseObj (Resolved (getObjectById c (Num (Finite (of_int i)))))]))"
    apply (rule exI[of _ ?i])
    using A rv dR write_Promise allocate_Promise by (simp; blast)
  have second: "\<exists>e j. hasRootId (sctx (promiseRejected st (Ref a) err)) err = Some e
            \<and> roots (sctx (promiseRejected st (Ref a) err)) ! nat e = err
            \<and> rootIdOf (promiseRejected st (Ref a) err) a = Some j \<and> j = - e - 1 \<and> j < 0
            \<and> (\<forall>st2 p idx. lookup (sobjs st2) a = Some (PromiseObj p) \<and> \<not> noSerialize env a
                    \<and> rootIdOf st2 a = Some j \<and> writtenInFull st2 (Ref a)
                  \<longrightarrow> writeObjectValue hst env st2 (Ref a) idx
                        = Inr (writeString hst st2 (Promise_VALUE # intToString j)))
            \<and> (\<forall>c h. allocate hst h (Promise_VALUE # intToString j)
                         = Inr (Ref (length h), h @ [PromiseObj Pending])
                  \<and> inflateShell hst c (h @ [PromiseObj Pending]) (Ref (length h))
                         (Promise_VALUE # intToString j)
                       = Inr (h @ [PromiseObj (Rejected (getObjectById c (Num (Finite (of_int e)))))]))"
    apply (rule exI[of _ ?e], rule exI[of _ "- ?e - 1"])
    using B re e31 dE write_Promise allocate_Promise by (simp; blast)
  from first second show ?thesis by blast
qed


theorem promise_settlement_witness:
  "ctx_steps createSerializationContext (sctx examplePromise)
   \<and> length (roots (sctx examplePromise)) < 2 ^ 31
   \<and> rootIdOf (promiseResolved examplePromise (Ref 0) (Num (Finite 42))) 0 = Some 0
   \<and> rootIdOf (promiseRejected examplePromise (Ref 0) (Str [0x65])) 0 = Some (- 1)
   \<and> (\<exists>i. rootIdOf (promiseResolved examplePromise (Ref 0) (Num (Finite 42))) 0 = Some i
         \<and> inflateShell exampleHost exampleResolver [PromiseObj Pending] (Ref 0) (Promise_VALUE # intToString i)
             = Inr [PromiseObj (Resolved (getObjectById exampleResolver (Num (Finite (of_int i)))))])"
proof -
  have reach: "ctx_steps createSerializationContext (sctx examplePromise)"
    by (simp add: examplePromise_def sstateOf_def steps_refl)
  have small: "length (roots (sctx examplePromise)) < 2 ^ 31"
    by (simp add: examplePromise_def sstateOf_def createSerializationContext_def)
  have r: "rootIdOf (promiseResolved examplePromise (Ref 0) (Num (Finite 42))) 0 = Some 0"
    by (simp add: promiseResolved_def setSerializableDataRootId_def examplePromise_def sstateOf_def
        addRoot_def createSerializationContext_def Let_def)
  have j: "rootIdOf (promiseRejected examplePromise (Ref 0) (Str [0x65])) 0 = Some (- 1)"
    by (simp add: promiseRejected_def examplePromise_def sstateOf_def
        addRoot_def createSerializationContext_def)
  from promise_settlement[OF reach small, where a = 0 and v = "Num (Finite 42)" and env = exampleEnv
         and hst = exampleHost and err = "Str [0x65]", THEN conjunct1]
  obtain i where
    i: "rootIdOf (promiseResolved examplePromise (Ref 0) (Num (Finite 42))) 0 = Some i"
    and d: "\<forall>c h. allocate exampleHost h (Promise_VALUE # intToString i)
                         = Inr (Ref (length h), h @ [PromiseObj Pending])
                  \<and> inflateShell exampleHost c (h @ [PromiseObj Pending]) (Ref (length h))
                         (Promise_VALUE # intToString i)
                       = Inr (h @ [PromiseObj (Resolved (getObjectById c (Num (Finite (of_int i)))))])"
    by blast
  from d[rule_format, of "[]" exampleResolver] i
  have "\<exists>i. rootIdOf (promiseResolved examplePromise (Ref 0) (Num (Finite 42))) 0 = Some i
         \<and> inflateShell exampleHost exampleResolver [PromiseObj Pending] (Ref 0) (Promise_VALUE # intToString i)
             = Inr [PromiseObj (Resolved (getObjectById exampleResolver (Num (Finite (of_int i)))))]"
    by auto
  with reach small r j show ?thesis by blast
qed





section \<open>The seen-state machine of the walker\<close>

lemma forInOwn_stable:
  assumes lit: "lookup h a = Some (ObjectLiteral ps)"
      and dist: "distinct (map fst ps)"
      and pure: "list_all (\<lambda>(k, sl). case sl of Getter d \<Rightarrow> snd (getterValue env h d) = h | Data _ \<Rightarrow> True) ps"
  shows "set qs \<subseteq> set ps \<Longrightarrow> sobjs st = h \<Longrightarrow>
         forInOwn env a (forInKeys qs) st = push st (propertyValues env h qs)"
proof (induction qs arbitrary: st)
  case Nil
  then show ?case by (simp add: forInKeys_def propertyValues_def push_def)
next
  case (Cons q qs)
  obtain k sl where q: "q = (k, sl)" by (cases q)
  have mem: "(k, sl) \<in> set ps" using Cons.prems(1) q by simp
  have slot: "slotOf h a k = Some sl"
    using lit dist mem by (simp add: slotOf_def)
  have sub: "set qs \<subseteq> set ps" using Cons.prems(1) by simp
  show ?case
  proof (cases "case k of PName _ \<Rightarrow> True | PIndex _ \<Rightarrow> True | _ \<Rightarrow> False")
    case False
    then have "forInKeys (q # qs) = forInKeys qs" "propertyValues env h (q # qs) = propertyValues env h qs"
      using q by (simp_all add: forInKeys_def propertyValues_def)
    then show ?thesis using Cons.IH[OF sub Cons.prems(2)] by simp
  next
    case True
    then have keys: "forInKeys (q # qs) = k # forInKeys qs"
      using q by (simp add: forInKeys_def)
    obtain v where gp: "getProp env h a k = (v, h)"
               and pv: "propertyValues env h (q # qs) = v # propertyValues env h qs"
    proof (cases sl)
      case (Data v)
      then show ?thesis using that[of v] slot True q by (simp add: getProp_def propertyValues_def)
    next
      case (Getter d)
      have "snd (getterValue env h d) = h"
        using pure mem Getter by (auto simp: list_all_iff)
      then have "getterValue env h d = (fst (getterValue env h d), h)"
        by (cases "getterValue env h d") simp
      then show ?thesis using that[of "fst (getterValue env h d)"] slot True q Getter
        by (simp add: getProp_def propertyValues_def)
    qed
    have st: "st \<lparr> sobjs := h \<rparr> = st" using Cons.prems(2) by simp
    have "forInOwn env a (forInKeys (q # qs)) st
            = forInOwn env a (forInKeys qs) (push (st \<lparr> sobjs := h \<rparr>) [v])"
      using keys slot gp Cons.prems(2) by simp
    then have "forInOwn env a (forInKeys (q # qs)) st = forInOwn env a (forInKeys qs) (push st [v])"
      unfolding st .
    also have "\<dots> = push (push st [v]) (propertyValues env h qs)"
      using Cons.IH[OF sub, of "push st [v]"] Cons.prems(2) by (simp add: push_def)
    finally show ?thesis using pv by (simp add: push_def)
  qed
qed

lemma scanContent_effect:
  assumes "scanContent env st ob = Inr st'" "stableReads env (sobjs st) ob"
  shows "discoveredValues st' = discoveredValues st @ children env (sobjs st) ob
       \<and> objMap (sctx st') ob = objMap (sctx st) ob"
proof (cases ob)
  case (Ref a)
  show ?thesis
  proof (cases "lookup (sobjs st) a")
    case None
    then show ?thesis using assms Ref
      by (simp add: scanContent_def typeofObject_def isFunction_def)
  next
    case (Some k)
    then have al: "a < length (sobjs st)" by (simp add: lookup_def split: if_splits)
    have ne: "Ref (length (sobjs st)) \<noteq> Ref a" using al by simp
    show ?thesis
    proof (cases "noSerialize env a")
      case True
      then show ?thesis using assms(1) Ref Some
        by (cases k)
           (auto simp: scanContent_def typeofObject_def isFunction_def children_def
              fastSkipSerialize_def)
    next
      case False
      show ?thesis
      proof (cases "\<exists>ps. k = ObjectLiteral ps")
        case True
        then obtain ps where k: "k = ObjectLiteral ps" by blast
        have sr: "distinct (map fst ps)"
                 "list_all (\<lambda>(k, sl). case sl of Getter d \<Rightarrow> snd (getterValue env (sobjs st) d) = sobjs st | Data _ \<Rightarrow> True) ps"
          using assms(2) Ref Some k by (simp_all add: stableReads_def)
        have "forInOwn env a (forInKeys ps) st = push st (propertyValues env (sobjs st) ps)"
          using forInOwn_stable[OF _ sr, of a ps st] Some k by simp
        moreover have "scanContent env st ob = Inr (forInOwn env a (forInKeys ps) st)"
          using Ref Some k False
          by (simp add: scanContent_def typeofObject_def isFunction_def fastSkipSerialize_def)
        ultimately have "st' = push st (propertyValues env (sobjs st) ps)" using assms(1) by simp
        then show ?thesis using Ref Some k False by (simp add: push_def children_def)
      next
        case nl: False
        then show ?thesis using assms(1) Ref Some ne False
          by (cases k)
             (auto simp: scanContent_def typeofObject_def isFunction_def children_def
                fastSkipSerialize_def push_def setSerializableDataRootId_def alloc_def addRoot_def
                split: option.splits if_splits prod.splits sum.splits)
      qed
    qed
  qed
qed (use assms in \<open>auto simp: scanContent_def children_def\<close>)


text \<open>
  The claim C5 as stated fails for a reactive store: a store is trackable, and a visit
  of an unseen store that is not the root pushes its target and leaves the store unseen.
\<close>

theorem store_visit_counterexample:
  "shouldTrackObj (sobjs exampleStore) (Ref 1)
   \<and> Ref 1 \<noteq> Ref 0
   \<and> wasSeen (sctx exampleStore) (Ref 1) = None
   \<and> (\<exists>st'. visit exampleEnv (Ref 0) (Ref 1) exampleStore = Inr st'
          \<and> wasSeen (sctx st') (Ref 1) = None
          \<and> discoveredValues st' = [Ref 0])"
  by (simp add: exampleStore_def sstateOf_def visit_def shouldTrackObj_def typeofObject_def
      isFunction_def lookup_def wasSeen_def createSerializationContext_def unwrapProxy_def
      getProxyTarget_def push_def exampleEnv_def Let_def)

text \<open>
  Claim C5, amended. Let the popped object be trackable, let its reads be stable, and
  let the visit return. If the object is not a reactive store: when it is not the root
  of the walk and is unseen, the visit marks it seen-once and pushes its children; when
  it is not the root and is seen-once, the visit promotes it to a root with the id that
  equals the length of the root list and pushes nothing; when it is not the root and
  already has a root id, the visit changes nothing; when it is the root of the walk, the
  visit pushes its children whatever its seen-state is, and leaves that state as it was.
  If the object is a reactive store, over any target and with any subscribers, in any
  seen-state and whether it is the root or not, the visit pushes its target and then the
  entries of its subscription tuples from \<open>HOST\<close> on, and changes nothing else: the store
  is neither marked nor promoted. The children of a deserializer proxy are what the
  reads through its \<open>get\<close> trap return.
\<close>

theorem seen_state_machine:
  assumes track: "shouldTrackObj (sobjs st) ob \<or> frameworkType (sobjs st) ob"
      and reads: "stableReads env (sobjs st) ob"
      and ok: "visit env rootObj ob st = Inr st'"
  shows "(unwrapProxy (sobjs st) ob = ob \<and> ob \<noteq> rootObj \<and> wasSeen (sctx st) ob = None \<longrightarrow>
            wasSeen (sctx st') ob = Some MIN_SAFE_INTEGER
          \<and> discoveredValues st' = discoveredValues st @ children env (sobjs st) ob)
       \<and> (unwrapProxy (sobjs st) ob = ob \<and> ob \<noteq> rootObj
            \<and> wasSeen (sctx st) ob = Some MIN_SAFE_INTEGER \<longrightarrow>
            st' = st \<lparr> sctx := snd (addRoot (sctx st) ob) \<rparr>
          \<and> hasRootId (sctx st') ob = Some (int (length (roots (sctx st))))
          \<and> roots (sctx st') = roots (sctx st) @ [ob]
          \<and> discoveredValues st' = discoveredValues st)
       \<and> (unwrapProxy (sobjs st) ob = ob \<and> ob \<noteq> rootObj \<and> hasRootId (sctx st) ob \<noteq> None \<longrightarrow>
            st' = st)
       \<and> (unwrapProxy (sobjs st) ob = ob \<and> ob = rootObj \<longrightarrow>
            discoveredValues st' = discoveredValues st @ children env (sobjs st) ob
          \<and> wasSeen (sctx st') ob = wasSeen (sctx st) ob)
       \<and> (\<forall>a t subs. ob = Ref a \<and> lookup (sobjs st) a = Some (StoreProxy t subs) \<and> t \<noteq> a \<longrightarrow>
            st' = st \<lparr> discoveredValues :=
                          discoveredValues st @ Ref t # concat (map (drop (HOST env)) subs) \<rparr>)"
proof (intro conjI impI allI)
  assume a: "unwrapProxy (sobjs st) ob = ob \<and> ob \<noteq> rootObj \<and> wasSeen (sctx st) ob = None"
  then have "scanContent env (st \<lparr> sctx := seen (sctx st) ob \<rparr>) ob = Inr st'"
    using track ok by (simp add: visit_def Let_def)
  from scanContent_effect[OF this] reads
  show "wasSeen (sctx st') ob = Some MIN_SAFE_INTEGER"
    and "discoveredValues st' = discoveredValues st @ children env (sobjs st) ob"
    by (simp_all add: wasSeen_def seen_def)
next
  assume a: "unwrapProxy (sobjs st) ob = ob \<and> ob \<noteq> rootObj
               \<and> wasSeen (sctx st) ob = Some MIN_SAFE_INTEGER"
  then show e: "st' = st \<lparr> sctx := snd (addRoot (sctx st) ob) \<rparr>"
    using track ok by (simp add: visit_def Let_def)
  have m: "objMap (sctx st) ob = Some MIN_SAFE_INTEGER" using a by (simp add: wasSeen_def)
  have neg: "int (length (roots (sctx st))) \<noteq> MIN_SAFE_INTEGER"
    by (simp add: MIN_SAFE_INTEGER_def)
  show "hasRootId (sctx st') ob = Some (int (length (roots (sctx st))))"
    using m neg unfolding e by (simp add: addRoot_def hasRootId_def)
  show "roots (sctx st') = roots (sctx st) @ [ob]"
    using m unfolding e by (simp add: addRoot_def)
  show "discoveredValues st' = discoveredValues st" unfolding e by simp
next
  assume a: "unwrapProxy (sobjs st) ob = ob \<and> ob \<noteq> rootObj \<and> hasRootId (sctx st) ob \<noteq> None"
  then obtain i where "wasSeen (sctx st) ob = Some i" "i \<noteq> MIN_SAFE_INTEGER"
    by (auto simp: hasRootId_def wasSeen_def split: option.splits if_splits)
  then show "st' = st" using a track ok by (simp add: visit_def Let_def)
next
  assume a: "unwrapProxy (sobjs st) ob = ob \<and> ob = rootObj"
  then have u: "unwrapProxy (sobjs st) ob = ob" and r: "rootObj = ob" by blast+
  have "scanContent env st ob = Inr st'"
    using track ok u unfolding r by (simp add: visit_def Let_def)
  from scanContent_effect[OF this reads]
  show "discoveredValues st' = discoveredValues st @ children env (sobjs st) ob"
    and "wasSeen (sctx st') ob = wasSeen (sctx st) ob"
    by (simp_all add: wasSeen_def)
next
  fix a t subs
  assume a: "ob = Ref a \<and> lookup (sobjs st) a = Some (StoreProxy t subs) \<and> t \<noteq> a"
  then have u: "unwrapProxy (sobjs st) ob = Ref t" "Ref t \<noteq> ob"
    by (simp_all add: unwrapProxy_def getProxyTarget_def)
  show "st' = st \<lparr> discoveredValues :=
                        discoveredValues st @ Ref t # concat (map (drop (HOST env)) subs) \<rparr>"
    using track ok a u by (simp add: visit_def Let_def push_def)
qed

theorem seen_state_machine_witness:
  "shouldTrackObj (sobjs exampleGraph) (Ref 0)
   \<and> stableReads exampleCaller (sobjs exampleGraph) (Ref 0)
   \<and> unwrapProxy (sobjs exampleGraph) (Ref 0) = Ref 0
   \<and> visit exampleCaller (Ref 1) (Ref 0) exampleGraph
       = Inr (exampleGraph \<lparr> sctx := seen (sctx exampleGraph) (Ref 0),
                              discoveredValues := [Ref 1, Str [0x78]] \<rparr>)
   \<and> wasSeen (seen (sctx exampleGraph) (Ref 0)) (Ref 0) = Some MIN_SAFE_INTEGER
   \<and> children exampleCaller (sobjs exampleGraph) (Ref 0) = [Ref 1, Str [0x78]]"
proof -
  let ?st' = "exampleGraph \<lparr> sctx := seen (sctx exampleGraph) (Ref 0),
                              discoveredValues := [Ref 1, Str [0x78]] \<rparr>"
  have t1: "shouldTrackObj (sobjs exampleGraph) (Ref 0)"
    by (simp add: exampleGraph_def sstateOf_def shouldTrackObj_def typeofObject_def isFunction_def lookup_def)
  then have track: "shouldTrackObj (sobjs exampleGraph) (Ref 0) \<or> frameworkType (sobjs exampleGraph) (Ref 0)"
    by simp
  have reads: "stableReads exampleCaller (sobjs exampleGraph) (Ref 0)"
    by (simp add: stableReads_def exampleGraph_def sstateOf_def lookup_def getterValue_def
        exampleCaller_def exampleEnv_def)
  have nostore: "unwrapProxy (sobjs exampleGraph) (Ref 0) = Ref 0"
    by (simp add: exampleGraph_def sstateOf_def unwrapProxy_def getProxyTarget_def lookup_def)
  have ok: "visit exampleCaller (Ref 1) (Ref 0) exampleGraph = Inr ?st'"
    by (simp add: exampleGraph_def sstateOf_def visit_def shouldTrackObj_def typeofObject_def
        isFunction_def lookup_def wasSeen_def createSerializationContext_def unwrapProxy_def
        getProxyTarget_def push_def exampleCaller_def exampleEnv_def Let_def scanContent_def
        fastSkipSerialize_def forInKeys_def slotOf_def getProp_def getterValue_def nthOr_def seen_def)
  have un: "unwrapProxy (sobjs exampleGraph) (Ref 0) = Ref 0 \<and> Ref 0 \<noteq> Ref 1
              \<and> wasSeen (sctx exampleGraph) (Ref 0) = None"
    using nostore by (simp add: exampleGraph_def sstateOf_def wasSeen_def createSerializationContext_def)
  from seen_state_machine[OF track reads ok, THEN conjunct1, rule_format, OF un]
  have "wasSeen (sctx ?st') (Ref 0) = Some MIN_SAFE_INTEGER"
   and "discoveredValues ?st' = discoveredValues exampleGraph @ children exampleCaller (sobjs exampleGraph) (Ref 0)"
    by simp_all
  then have "wasSeen (seen (sctx exampleGraph) (Ref 0)) (Ref 0) = Some MIN_SAFE_INTEGER"
        and "children exampleCaller (sobjs exampleGraph) (Ref 0) = [Ref 1, Str [0x78]]"
    by (simp_all add: exampleGraph_def sstateOf_def)
  with t1 reads nostore ok show ?thesis by blast
qed

section \<open>Lazy reads of tagged properties\<close>





















lemma heapStep_length: "heapStep T h h' \<Longrightarrow> length h \<le> length h'"
  by (simp add: heapStep_def)


lemma heapStep_proxy:
  "heapStep T h h' \<Longrightarrow> lookup h p = Some ob \<Longrightarrow> isProxy ob \<Longrightarrow> lookup h' p = Some ob"
  by (auto simp: heapStep_def lookup_def split: if_splits)

lemma followProxies_nonproxy:
  "lookup h a = Some ob \<Longrightarrow> \<not> isProxy ob \<Longrightarrow> followProxies n h a = a"
  by (cases n; cases ob) (simp_all add: isProxy_def)

lemma heapStep_followProxies:
  assumes wf: "wfHeap h" and st: "heapStep T h h'"
  shows "a < length h \<Longrightarrow> followProxies n h' a = followProxies n h a"
proof (induction n arbitrary: a)
  case 0
  then show ?case by simp
next
  case (Suc n)
  have l: "lookup h a = Some (h ! a)" using Suc.prems by (simp add: lookup_def)
  have a': "a < length h'" using Suc.prems heapStep_length[OF st] by simp
  have l': "lookup h' a = Some (h' ! a)" using a' by (simp add: lookup_def)
  show ?case
  proof (cases "isProxy (h ! a)")
    case False
    then have "\<not> isProxy (h' ! a)" using st Suc.prems by (simp add: heapStep_def)
    then show ?thesis using False l l' followProxies_nonproxy by metis
  next
    case True
    then have same: "lookup h' a = lookup h a"
      using heapStep_proxy[OF st l True] l by simp
    show ?thesis
    proof (cases "h ! a")
      case (DeserializerProxy t)
      then have "t < length h" using wfHeap_target(1)[OF wf Suc.prems] Suc.prems by fastforce
      then show ?thesis using same l DeserializerProxy Suc.IH by simp
    next
      case (StoreProxy t subs)
      then have "t < length h" using wfHeap_target(2)[OF wf Suc.prems] Suc.prems by fastforce
      then show ?thesis using same l StoreProxy Suc.IH by simp
    qed (use True in \<open>simp_all add: isProxy_def\<close>)
  qed
qed

lemma heapStep_baseOf:
  assumes wf: "wfHeap h" and st: "heapStep T h h'" and a: "a < length h"
  shows "baseOf h' a = baseOf h a"
proof -
  have "baseOf h' a = followProxies (length h') h a"
    unfolding baseOf_def using heapStep_followProxies[OF wf st a] .
  also have "\<dots> = followProxies (length h) h a"
    using followProxies_fuel[OF wf a, of "length h'" "length h"] a heapStep_length[OF st] by simp
  finally show ?thesis by (simp add: baseOf_def)
qed
























end
